theory Spec2Isabelle
  imports Complex_Main "HOL-Library.Word" "HOL-Library.Log_Nat"
begin

unbundle bit_operations_syntax

section \<open>Host values: bytes, numbers and their IEEE-754 images\<close>

text \<open>
  A \<open>Uint8Array\<close> is a list of bytes. A JavaScript number is an IEEE-754 double; it is
  modelled by its value: not-a-number, the two infinities, negative zero, or a finite
  rational (\<open>Fin 0\<close> is positive zero). Only rationals that are doubles occur as numbers
  of the host; \<open>is_float64\<close> below says which.
\<close>

type_synonym byte = "8 word"
type_synonym buffer = "byte list"

datatype number = NaN | PosInf | NegInf | NegZero | Fin rat

definition num :: "nat \<Rightarrow> number" where
  "num n = Fin (of_nat n)"

definition pow2 :: "int \<Rightarrow> rat" where
  "pow2 e = (if 0 \<le> e then 2 ^ nat e else 1 / 2 ^ nat (- e))"

text \<open>\<open>ilog2 a\<close> is the exponent \<open>e\<close> with \<open>2^e \<le> a < 2^(e+1)\<close>, for a positive rational.\<close>

definition ilog2 :: "rat \<Rightarrow> int" where
  "ilog2 a = (let (p, q) = quotient_of a; k = bitlen p - bitlen q
              in if pow2 k \<le> a then k else k - 1)"

definition round_half_even :: "rat \<Rightarrow> int" where
  "round_half_even x = (let f = \<lfloor>x\<rfloor>; d = x - of_int f
     in if d < 1 / 2 then f else if 1 / 2 < d then f + 1
        else if even f then f else f + 1)"

text \<open>
  The bit pattern of a number in the binary interchange format with \<open>ebits\<close> exponent
  bits and \<open>mbits\<close> fraction bits, rounding to nearest, ties to even, as
  \<open>DataView.setFloat32\<close> and \<open>DataView.setFloat64\<close> store it. NaN is stored as the
  quiet NaN with an empty payload.
\<close>

definition ieee_encode :: "nat \<Rightarrow> nat \<Rightarrow> number \<Rightarrow> nat" where
  "ieee_encode ebits mbits x =
    (let top = (2 ^ ebits - 1) * 2 ^ mbits; sgn_bit = 2 ^ (ebits + mbits)
     in case x of
          NaN \<Rightarrow> top + 2 ^ (mbits - 1)
        | PosInf \<Rightarrow> top
        | NegInf \<Rightarrow> sgn_bit + top
        | NegZero \<Rightarrow> sgn_bit
        | Fin r \<Rightarrow>
            if r = 0 then 0
            else
              let a = \<bar>r\<bar>;
                  e = ilog2 a;
                  emin = 2 - 2 ^ (ebits - 1);
                  m = nat (round_half_even (a / pow2 (max e emin - int mbits)));
                  bits = (if emin \<le> e then nat (e - emin) * 2 ^ mbits + m else m)
              in (if r < 0 then sgn_bit else 0) + min bits top)"

definition ieee_decode :: "nat \<Rightarrow> nat \<Rightarrow> nat \<Rightarrow> number" where
  "ieee_decode ebits mbits bits =
    (let neg = odd (bits div 2 ^ (ebits + mbits));
         e = (bits div 2 ^ mbits) mod 2 ^ ebits;
         m = bits mod 2 ^ mbits;
         emin = 2 - 2 ^ (ebits - 1);
         sg = (if neg then - 1 else 1)
     in if e = 2 ^ ebits - 1 then (if m = 0 then (if neg then NegInf else PosInf) else NaN)
        else if e = 0 then
          (if m = 0 then (if neg then NegZero else Fin 0)
           else Fin (sg * of_nat m * pow2 (emin - int mbits)))
        else Fin (sg * of_nat (2 ^ mbits + m) * pow2 (int e - 1 + emin - int mbits)))"

definition to_float32 :: "number \<Rightarrow> nat" where
  "to_float32 = ieee_encode 8 23"

definition to_float64 :: "number \<Rightarrow> nat" where
  "to_float64 = ieee_encode 11 52"

definition Math_fround :: "number \<Rightarrow> number" where
  "Math_fround x = ieee_decode 8 23 (to_float32 x)"

definition is_float64 :: "number \<Rightarrow> bool" where
  "is_float64 x = (ieee_decode 11 52 (to_float64 x) = x)"

subsection \<open>Operators of the host on numbers\<close>

text \<open>
  Comparison follows the language: every comparison with NaN is false, and the two
  zeros are equal. \<open>ord_key\<close> places a number on the extended line.
\<close>

definition ord_key :: "number \<Rightarrow> (int \<times> rat) option" where
  "ord_key x = (case x of NaN \<Rightarrow> None | NegInf \<Rightarrow> Some (- 1, 0) | PosInf \<Rightarrow> Some (1, 0)
                | NegZero \<Rightarrow> Some (0, 0) | Fin r \<Rightarrow> Some (0, r))"

definition strict_eq :: "number \<Rightarrow> number \<Rightarrow> bool" where
  "strict_eq a b = (case (ord_key a, ord_key b) of
      (Some k, Some l) \<Rightarrow> k = l | _ \<Rightarrow> False)"

definition num_lt :: "number \<Rightarrow> number \<Rightarrow> bool" where
  "num_lt a b = (case (ord_key a, ord_key b) of
      (Some (i, r), Some (j, s)) \<Rightarrow> i < j \<or> (i = j \<and> r < s) | _ \<Rightarrow> False)"

definition num_le :: "number \<Rightarrow> number \<Rightarrow> bool" where
  "num_le a b = (case (ord_key a, ord_key b) of
      (Some (i, r), Some (j, s)) \<Rightarrow> i < j \<or> (i = j \<and> r \<le> s) | _ \<Rightarrow> False)"

definition isNaN :: "number \<Rightarrow> bool" where
  "isNaN x = (x = NaN)"

definition isFinite :: "number \<Rightarrow> bool" where
  "isFinite x = (x \<noteq> NaN \<and> x \<noteq> PosInf \<and> x \<noteq> NegInf)"

text \<open>\<open>Object.is(x, -0)\<close>\<close>

definition is_neg_zero :: "number \<Rightarrow> bool" where
  "is_neg_zero x = (x = NegZero)"

text \<open>
  \<open>Math.round\<close> rounds half up and keeps the sign of a zero result; \<open>Math.floor\<close>
  is exact on every double.
\<close>

definition Math_round :: "number \<Rightarrow> number" where
  "Math_round x = (case x of
      Fin r \<Rightarrow> (let n = \<lfloor>r + 1 / 2\<rfloor> in if n = 0 \<and> r < 0 then NegZero else Fin (of_int n))
    | _ \<Rightarrow> x)"

definition Math_floor :: "number \<Rightarrow> number" where
  "Math_floor x = (case x of Fin r \<Rightarrow> Fin (of_int \<lfloor>r\<rfloor>) | _ \<Rightarrow> x)"

text \<open>
  The arithmetic the encoder performs on numbers: \<open>-obj - 1\<close>, \<open>obj / SHIFT32\<close> and
  \<open>obj % SHIFT32\<close>. On finite operands the exact result is given. The division by
  \<open>2^32\<close> and the remainder are exact on doubles; \<open>-obj - 1\<close> is exact while
  \<open>|obj| \<le> 2^53\<close>, and beyond that both the exact and the rounded result exceed
  \<open>Number.MAX_SAFE_INTEGER\<close>, which is all the encoder asks of it.
\<close>

definition neg_minus_one :: "number \<Rightarrow> number" where
  "neg_minus_one x = (case x of
      NaN \<Rightarrow> NaN | PosInf \<Rightarrow> NegInf | NegInf \<Rightarrow> PosInf | NegZero \<Rightarrow> Fin (- 1)
    | Fin r \<Rightarrow> Fin (- r - 1))"

definition div_SHIFT32 :: "number \<Rightarrow> number" where
  "div_SHIFT32 x = (case x of Fin r \<Rightarrow> Fin (r / 2 ^ 32) | _ \<Rightarrow> x)"

definition trunc :: "rat \<Rightarrow> int" where
  "trunc r = (if 0 \<le> r then \<lfloor>r\<rfloor> else \<lceil>r\<rceil>)"

definition mod_SHIFT32 :: "number \<Rightarrow> number" where
  "mod_SHIFT32 x = (case x of
      Fin r \<Rightarrow> (let m = r - 2 ^ 32 * of_int (trunc (r / 2 ^ 32))
                in if m = 0 \<and> r < 0 then NegZero else Fin m)
    | NegZero \<Rightarrow> NegZero
    | _ \<Rightarrow> NaN)"

text \<open>
  The integer conversions: \<open>ToInt32\<close> for the bitwise operators (\<open>int32\<close> wraps an
  integer into the signed 32-bit range), and the modular conversions of
  \<open>DataView.setUint8/16/32\<close>. A number that is not finite converts to 0.
\<close>

definition to_integer :: "number \<Rightarrow> int" where
  "to_integer x = (case x of Fin r \<Rightarrow> trunc r | _ \<Rightarrow> 0)"

definition int32 :: "int \<Rightarrow> int" where
  "int32 k = signed_take_bit 31 k"

definition js_and :: "int \<Rightarrow> int \<Rightarrow> int" where
  "js_and a b = int32 a AND int32 b"

definition js_or :: "int \<Rightarrow> int \<Rightarrow> int" where
  "js_or a b = int32 a OR int32 b"

definition js_shl :: "int \<Rightarrow> int \<Rightarrow> int" where
  "js_shl a k = int32 (push_bit (nat (k mod 32)) (int32 a))"

definition js_sar :: "int \<Rightarrow> int \<Rightarrow> int" where
  "js_sar a k = drop_bit (nat (k mod 32)) (int32 a)"

definition of_integer :: "int \<Rightarrow> number" where
  "of_integer k = Fin (of_int k)"

definition num_or :: "number \<Rightarrow> number \<Rightarrow> number" where
  "num_or a b = of_integer (js_or (to_integer a) (to_integer b))"

definition num_shl :: "number \<Rightarrow> number \<Rightarrow> number" where
  "num_shl a k = of_integer (js_shl (to_integer a) (to_integer k))"

definition to_uint :: "nat \<Rightarrow> number \<Rightarrow> nat" where
  "to_uint k x = nat (to_integer x mod 2 ^ k)"

text \<open>
  Multiplication, as \<open>parseHalf\<close> uses it: the sign rules of IEEE-754 for zeros and
  infinities, and the exact product of finite operands (the products taken there, of a
  power of two and an integer below 2048, are doubles).
\<close>

definition is_neg :: "number \<Rightarrow> bool" where
  "is_neg x = (case x of NegInf \<Rightarrow> True | NegZero \<Rightarrow> True | Fin r \<Rightarrow> r < 0 | _ \<Rightarrow> False)"

definition is_inf :: "number \<Rightarrow> bool" where
  "is_inf x = (x = PosInf \<or> x = NegInf)"

definition magnitude :: "number \<Rightarrow> rat" where
  "magnitude x = (case x of Fin r \<Rightarrow> \<bar>r\<bar> | _ \<Rightarrow> 0)"

definition num_mult :: "number \<Rightarrow> number \<Rightarrow> number" where
  "num_mult a b =
    (if a = NaN \<or> b = NaN then NaN
     else if is_inf a \<or> is_inf b then
       (if (is_inf a \<and> magnitude b = 0 \<and> \<not> is_inf b) \<or> (is_inf b \<and> magnitude a = 0 \<and> \<not> is_inf a)
        then NaN
        else if is_neg a = is_neg b then PosInf else NegInf)
     else let r = magnitude a * magnitude b
          in if is_neg a = is_neg b then Fin r
             else if r = 0 then NegZero else Fin (- r))"

text \<open>Big-endian bytes of an unsigned value, as the \<open>DataView\<close> setters lay them out.\<close>

definition uint8_bytes :: "nat \<Rightarrow> buffer" where
  "uint8_bytes v = [of_nat v]"

definition uint16_bytes :: "nat \<Rightarrow> buffer" where
  "uint16_bytes v = [of_nat (v div 2 ^ 8), of_nat v]"

definition uint32_bytes :: "nat \<Rightarrow> buffer" where
  "uint32_bytes v = [of_nat (v div 2 ^ 24), of_nat (v div 2 ^ 16), of_nat (v div 2 ^ 8), of_nat v]"

definition float32_bytes :: "number \<Rightarrow> buffer" where
  "float32_bytes x = uint32_bytes (to_float32 x)"

definition float64_bytes :: "number \<Rightarrow> buffer" where
  "float64_bytes x = uint32_bytes (to_float64 x div 2 ^ 32) @ uint32_bytes (to_float64 x mod 2 ^ 32)"

text \<open>Reading big-endian bytes back, as the \<open>DataView\<close> getters do.\<close>

definition getUint :: "buffer \<Rightarrow> nat" where
  "getUint bs = foldl (\<lambda>acc b. acc * 256 + unat b) 0 bs"

section \<open>Constants (constants.js)\<close>

abbreviation (input) MT_POS_INT :: nat where "MT_POS_INT \<equiv> 0"
abbreviation (input) MT_NEG_INT :: nat where "MT_NEG_INT \<equiv> 1"
abbreviation (input) MT_BYTE_STRING :: nat where "MT_BYTE_STRING \<equiv> 2"
abbreviation (input) MT_UTF8_STRING :: nat where "MT_UTF8_STRING \<equiv> 3"
abbreviation (input) MT_ARRAY :: nat where "MT_ARRAY \<equiv> 4"
abbreviation (input) MT_MAP :: nat where "MT_MAP \<equiv> 5"
abbreviation (input) MT_TAG :: nat where "MT_TAG \<equiv> 6"
abbreviation (input) MT_SIMPLE_FLOAT :: nat where "MT_SIMPLE_FLOAT \<equiv> 7"

abbreviation (input) TAG_POS_BIGINT :: nat where "TAG_POS_BIGINT \<equiv> 2"
abbreviation (input) TAG_NEG_BIGINT :: nat where "TAG_NEG_BIGINT \<equiv> 3"
abbreviation (input) TAG_SET :: nat where "TAG_SET \<equiv> 258"

abbreviation (input) NUMBYTES_ONE :: nat where "NUMBYTES_ONE \<equiv> 24"
abbreviation (input) NUMBYTES_TWO :: nat where "NUMBYTES_TWO \<equiv> 25"
abbreviation (input) NUMBYTES_FOUR :: nat where "NUMBYTES_FOUR \<equiv> 26"
abbreviation (input) NUMBYTES_EIGHT :: nat where "NUMBYTES_EIGHT \<equiv> 27"
abbreviation (input) NUMBYTES_INDEFINITE :: nat where "NUMBYTES_INDEFINITE \<equiv> 31"

abbreviation (input) SIMPLE_FALSE :: nat where "SIMPLE_FALSE \<equiv> 20"
abbreviation (input) SIMPLE_TRUE :: nat where "SIMPLE_TRUE \<equiv> 21"
abbreviation (input) SIMPLE_NULL :: nat where "SIMPLE_NULL \<equiv> 22"
abbreviation (input) SIMPLE_UNDEFINED :: nat where "SIMPLE_UNDEFINED \<equiv> 23"

abbreviation (input) MAX_SAFE_HIGH :: nat where "MAX_SAFE_HIGH \<equiv> 0x1fffff"
abbreviation (input) SHIFT32 :: nat where "SHIFT32 \<equiv> 0x100000000"
abbreviation (input) MAX_SAFE_INTEGER :: nat where "MAX_SAFE_INTEGER \<equiv> 9007199254740991"
abbreviation (input) BI_MAXINT32 :: int where "BI_MAXINT32 \<equiv> 0xffffffff"
abbreviation (input) BI_MAXINT64 :: int where "BI_MAXINT64 \<equiv> 0xffffffffffffffff"
abbreviation (input) BI_SHIFT32 :: int where "BI_SHIFT32 \<equiv> 0x100000000"

section \<open>Hexadecimal transcoding (hex.js)\<close>

definition hex_digit :: "char \<Rightarrow> nat option" where
  "hex_digit c = (let k = (of_char c :: nat) in
     if 48 \<le> k \<and> k \<le> 57 then Some (k - 48)
     else if 97 \<le> k \<and> k \<le> 102 then Some (k - 87)
     else if 65 \<le> k \<and> k \<le> 70 then Some (k - 55)
     else None)"

text \<open>
  \<open>Buffer.from(s, 'hex')\<close> reads pairs of digits and stops at the first pair that is
  not hexadecimal; a last single character is dropped.
\<close>

fun hex_decode :: "string \<Rightarrow> buffer" where
  "hex_decode (a # b # s) =
     (case (hex_digit a, hex_digit b) of
        (Some x, Some y) \<Rightarrow> of_nat (16 * x + y) # hex_decode s
      | _ \<Rightarrow> [])"
| "hex_decode _ = []"

definition hex_char :: "nat \<Rightarrow> char" where
  "hex_char d = ''0123456789abcdef'' ! d"

text \<open>\<open>toString(16)\<close> of a non-negative integer: lower-case digits, no leading zero.\<close>

fun toString16 :: "nat \<Rightarrow> string" where
  "toString16 n = (if n < 16 then [hex_char n] else toString16 (n div 16) @ [hex_char (n mod 16)])"

declare toString16.simps [simp del]

section \<open>Half-precision floats (util.js)\<close>

datatype error = Error string | TypeError string | RangeError string

text \<open>
  \<open>buf[i]\<close> of a typed array; past the end it is \<open>undefined\<close>, which the bitwise
  operators read as 0.
\<close>

definition byte_at :: "buffer \<Rightarrow> nat \<Rightarrow> int" where
  "byte_at buf i = (if i < length buf then uint (buf ! i) else 0)"

definition parseHalf :: "buffer \<Rightarrow> number" where
  "parseHalf buf =
    (let sign = (if js_and (byte_at buf 0) 0x80 \<noteq> 0 then - 1 else 1);
         exp = js_sar (js_and (byte_at buf 0) 0x7C) 2;
         mant = js_or (js_shl (js_and (byte_at buf 0) 0x03) 8) (byte_at buf 1)
     in if exp = 0 then num_mult (num_mult (of_integer sign) (Fin (1 / 2 ^ 24))) (of_integer mant)
        else if exp = 0x1f then num_mult (of_integer sign) (if mant \<noteq> 0 then NaN else PosInf)
        else num_mult (num_mult (of_integer sign) (Fin (pow2 (exp - 25)))) (of_integer (1024 + mant)))"

text \<open>
  \<open>DataView.setUint16(0, v)\<close> on a view of \<open>buf\<close>: a \<open>RangeError\<close> when the view has
  fewer than two bytes.
\<close>

definition setUint16 :: "buffer \<Rightarrow> int \<Rightarrow> error + buffer" where
  "setUint16 buf v =
    (if length buf < 2 then Inl (RangeError ''Offset is outside the bounds of the DataView'')
     else Inr (uint16_bytes (nat (v mod 2 ^ 16)) @ drop 2 buf))"

text \<open>
  \<open>writeHalf(buf, half)\<close> returns whether it wrote, and the buffer. The locals are the
  integers the 32-bit operators produce; the additions on them stay far below \<open>2^31\<close>.
\<close>

definition writeHalf :: "buffer \<Rightarrow> number \<Rightarrow> error + (bool \<times> buffer)" where
  "writeHalf buf half =
    (let u = int (to_float32 half)
     in if js_and u 0x1FFF \<noteq> 0 then Inr (False, buf)
        else
          let s16 = js_and (js_sar u 16) 0x8000;
              exp = js_and (js_sar u 23) 0xff;
              mant = js_and u 0x7fffff
          in if 113 \<le> exp \<and> exp \<le> 142 then
               map_sum id (Pair True) (setUint16 buf (s16 + (js_shl (exp - 112) 10 + js_sar mant 13)))
             else if 103 \<le> exp \<and> exp < 113 then
               (if js_and mant (js_shl 1 (126 - exp) - 1) \<noteq> 0 then Inr (False, buf)
                else map_sum id (Pair True)
                       (setUint16 buf (s16 + js_sar (mant + 0x800000) (126 - exp))))
             else Inr (False, buf))"

section \<open>The encoder (Encoder.js)\<close>

text \<open>
  The encoder object: the list of buffers pushed so far, and the options the constructor
  stores. \<open>detectLoops\<close> is \<open>None\<close> for \<open>false\<close> and otherwise the \<open>WeakSet\<close>, a set
  of object identities. Every \<open>push\<close> returns \<open>true\<close>, so each \<open>a && b\<close> chain of the
  source runs both pushes; the functions below return the encoder after them, or the
  error thrown.
\<close>

record encoder =
  stream :: "buffer list"
  canonical :: bool
  collapseBigIntegers :: bool
  detectLoops :: "nat set option"
  disallowUndefinedKeys :: bool
  omitUndefinedProperties :: bool

record options =
  opt_canonical :: bool
  opt_collapseBigIntegers :: bool
  opt_detectLoops :: "nat set option"
  opt_disallowUndefinedKeys :: bool
  opt_omitUndefinedProperties :: bool

definition default_options :: options where
  "default_options = \<lparr>opt_canonical = False, opt_collapseBigIntegers = False,
     opt_detectLoops = None, opt_disallowUndefinedKeys = False,
     opt_omitUndefinedProperties = False\<rparr>"

definition new_Encoder :: "options \<Rightarrow> error + encoder" where
  "new_Encoder opts =
    (if opt_canonical opts then Inl (Error ''canonical mode not implemented.'')
     else Inr \<lparr>stream = [], canonical = opt_canonical opts,
            collapseBigIntegers = (if opt_canonical opts then True else opt_collapseBigIntegers opts),
            detectLoops = opt_detectLoops opts,
            disallowUndefinedKeys = opt_disallowUndefinedKeys opts,
            omitUndefinedProperties = opt_omitUndefinedProperties opts\<rparr>)"

text \<open>The encoder \<open>new Encoder()\<close> builds from no options.\<close>

definition Encoder_default :: encoder where
  "Encoder_default = \<lparr>stream = [], canonical = False, collapseBigIntegers = False,
     detectLoops = None, disallowUndefinedKeys = False, omitUndefinedProperties = False\<rparr>"

definition concatBuffers :: "buffer list \<Rightarrow> buffer" where
  "concatBuffers bufs = concat bufs"

definition flush :: "encoder \<Rightarrow> buffer \<times> encoder" where
  "flush gen = (concatBuffers (stream gen), gen\<lparr>stream := []\<rparr>)"

definition push :: "encoder \<Rightarrow> buffer \<Rightarrow> encoder" where
  "push gen buf = gen\<lparr>stream := stream gen @ [buf]\<rparr>"

definition HALF :: number where "HALF = num_or (num_shl (num MT_SIMPLE_FLOAT) (num 5)) (num NUMBYTES_TWO)"
definition FLOAT :: number where "FLOAT = num_or (num_shl (num MT_SIMPLE_FLOAT) (num 5)) (num NUMBYTES_FOUR)"
definition DOUBLE :: number where "DOUBLE = num_or (num_shl (num MT_SIMPLE_FLOAT) (num 5)) (num NUMBYTES_EIGHT)"
definition TRUE :: number where "TRUE = num_or (num_shl (num MT_SIMPLE_FLOAT) (num 5)) (num SIMPLE_TRUE)"
definition FALSE :: number where "FALSE = num_or (num_shl (num MT_SIMPLE_FLOAT) (num 5)) (num SIMPLE_FALSE)"
definition UNDEFINED :: number where "UNDEFINED = num_or (num_shl (num MT_SIMPLE_FLOAT) (num 5)) (num SIMPLE_UNDEFINED)"
definition NULL :: number where "NULL = num_or (num_shl (num MT_SIMPLE_FLOAT) (num 5)) (num SIMPLE_NULL)"

definition BREAK :: buffer where "BREAK = [0xff]"
definition BUF_NAN :: buffer where "BUF_NAN = hex_decode ''f97e00''"
definition BUF_INF_NEG :: buffer where "BUF_INF_NEG = hex_decode ''f9fc00''"
definition BUF_INF_POS :: buffer where "BUF_INF_POS = hex_decode ''f97c00''"
definition BUF_NEG_ZERO :: buffer where "BUF_NEG_ZERO = hex_decode ''f98000''"

definition pushUInt8 :: "encoder \<Rightarrow> number \<Rightarrow> encoder" where
  "pushUInt8 gen val = push gen (uint8_bytes (to_uint 8 val))"

definition pushUInt16BE :: "encoder \<Rightarrow> number \<Rightarrow> encoder" where
  "pushUInt16BE gen val = push gen (uint16_bytes (to_uint 16 val))"

definition pushUInt32BE :: "encoder \<Rightarrow> number \<Rightarrow> encoder" where
  "pushUInt32BE gen val = push gen (uint32_bytes (to_uint 32 val))"

definition pushFloatBE :: "encoder \<Rightarrow> number \<Rightarrow> encoder" where
  "pushFloatBE gen val = push gen (float32_bytes val)"

definition pushDoubleBE :: "encoder \<Rightarrow> number \<Rightarrow> encoder" where
  "pushDoubleBE gen val = push gen (float64_bytes val)"

definition pushNaN :: "encoder \<Rightarrow> encoder" where
  "pushNaN gen = push gen BUF_NAN"

definition pushInfinity :: "encoder \<Rightarrow> number \<Rightarrow> encoder" where
  "pushInfinity gen obj = push gen (if num_lt obj (num 0) then BUF_INF_NEG else BUF_INF_POS)"

definition pushFloat :: "encoder \<Rightarrow> number \<Rightarrow> encoder" where
  "pushFloat gen obj =
    (let rest = (if strict_eq (Math_fround obj) obj
                 then pushFloatBE (pushUInt8 gen FLOAT) obj
                 else pushDoubleBE (pushUInt8 gen DOUBLE) obj)
     in if canonical gen then
          (case writeHalf [0, 0] obj of
             Inr (True, b2) \<Rightarrow> push (pushUInt8 gen HALF) b2
           | _ \<Rightarrow> rest)
        else rest)"

text \<open>
  \<open>_pushInt(obj, mt, orig)\<close>. The third argument is optional; \<open>_pushFloat(undefined)\<close>
  behaves as \<open>_pushFloat(NaN)\<close>, since \<open>undefined\<close> converts to NaN in
  \<open>Math.fround\<close> and in the \<open>DataView\<close> setters.
\<close>

definition pushInt :: "encoder \<Rightarrow> number \<Rightarrow> nat \<Rightarrow> number option \<Rightarrow> encoder" where
  "pushInt gen obj mt orig =
    (let m = num_shl (num mt) (num 5)
     in if num_lt obj (num 24) then pushUInt8 gen (num_or m obj)
        else if num_le obj (num 0xff) then
          pushUInt8 (pushUInt8 gen (num_or m (num NUMBYTES_ONE))) obj
        else if num_le obj (num 0xffff) then
          pushUInt16BE (pushUInt8 gen (num_or m (num NUMBYTES_TWO))) obj
        else if num_le obj (num 0xffffffff) then
          pushUInt32BE (pushUInt8 gen (num_or m (num NUMBYTES_FOUR))) obj
        else if num_le obj (num MAX_SAFE_INTEGER) then
          pushUInt32BE
            (pushUInt32BE (pushUInt8 gen (num_or m (num NUMBYTES_EIGHT)))
               (Math_floor (div_SHIFT32 obj)))
            (mod_SHIFT32 obj)
        else if mt = MT_NEG_INT then pushFloat gen (case orig of Some x \<Rightarrow> x | None \<Rightarrow> NaN)
        else pushFloat gen obj)"

definition pushIntNum :: "encoder \<Rightarrow> number \<Rightarrow> encoder" where
  "pushIntNum gen obj =
    (if is_neg_zero obj then push gen BUF_NEG_ZERO
     else if num_lt obj (num 0) then pushInt gen (neg_minus_one obj) MT_NEG_INT (Some obj)
     else pushInt gen obj MT_POS_INT None)"

definition pushNumber :: "encoder \<Rightarrow> number \<Rightarrow> encoder" where
  "pushNumber gen obj =
    (if isNaN obj then pushNaN gen
     else if \<not> isFinite obj then pushInfinity gen obj
     else if strict_eq (Math_round obj) obj then pushIntNum gen obj
     else pushFloat gen obj)"

section \<open>Values of the host\<close>

text \<open>
  The values the encoder dispatches on. A string is its UTF-16 code units. Every object
  carries its identity (a natural number) first: two objects are the same object when
  their identities are equal, which is what the \<open>WeakSet\<close> of the loop detector
  compares. A plain object lists its own enumerable properties in order. A
  \<open>BigNumber\<close> is NaN, an infinity, negative zero, or \<open>m * 10^(-d)\<close> with \<open>d\<close> its
  number of decimal places (\<open>BN_Finite 0 0\<close> is positive zero). \<open>Simple\<close> and \<open>Tagged\<close> are the two classes of the library with an
  \<open>encodeCBOR\<close> method. Dates, regular expressions, URLs and the typed arrays other
  than \<open>Uint8Array\<close> are not modelled.
\<close>

datatype symbol = SYMS_NULL | SYMS_UNDEFINED | SYMS_PARENT | SYMS_BREAK | SYMS_STREAM
  | OtherSymbol string

datatype bignumber = BN_NaN | BN_Infinity bool | BN_NegZero | BN_Finite int nat

datatype err_value = ErrMessage string | ErrObject error

type_synonym jsstring = "16 word list"

datatype jsval =
    JNumber number
  | JBigInt int
  | JString jsstring
  | JBoolean bool
  | JUndefined
  | JNull
  | JSymbol symbol
  | JFunction nat
  | JUint8Array nat buffer
  | JArray nat "jsval list"
  | JMap nat "(jsval \<times> jsval) list"
  | JSet nat "jsval list"
  | JObject nat "(jsstring \<times> jsval) list"
  | JBigNumber nat bignumber
  | JSimple nat nat
  | JTagged nat nat jsval "err_value option"

section \<open>UTF-8 (the host's TextEncoder and TextDecoder)\<close>

text \<open>
  \<open>TextEncoder.encode\<close>: a surrogate pair becomes the four bytes of its code point, a
  surrogate that is not part of a pair becomes U+FFFD (\<open>ef bf bd\<close>).
\<close>

definition utf8_bytes :: "nat \<Rightarrow> buffer" where
  "utf8_bytes c =
    (if c < 0x80 then [of_nat c]
     else if c < 0x800 then [of_nat (0xC0 + c div 64), of_nat (0x80 + c mod 64)]
     else if c < 0x10000 then
       [of_nat (0xE0 + c div 4096), of_nat (0x80 + c div 64 mod 64), of_nat (0x80 + c mod 64)]
     else [of_nat (0xF0 + c div 262144), of_nat (0x80 + c div 4096 mod 64),
           of_nat (0x80 + c div 64 mod 64), of_nat (0x80 + c mod 64)])"

definition is_high_surrogate :: "16 word \<Rightarrow> bool" where
  "is_high_surrogate u = (0xD800 \<le> unat u \<and> unat u < 0xDC00)"

definition is_low_surrogate :: "16 word \<Rightarrow> bool" where
  "is_low_surrogate u = (0xDC00 \<le> unat u \<and> unat u < 0xE000)"

fun utf8_encode :: "jsstring \<Rightarrow> buffer" where
  "utf8_encode [] = []"
| "utf8_encode [u] =
     (if is_high_surrogate u \<or> is_low_surrogate u then utf8_bytes 0xFFFD
      else utf8_bytes (unat u))"
| "utf8_encode (u # v # us) =
     (if is_high_surrogate u then
        (if is_low_surrogate v
         then utf8_bytes (0x10000 + (unat u - 0xD800) * 0x400 + (unat v - 0xDC00)) @ utf8_encode us
         else utf8_bytes 0xFFFD @ utf8_encode (v # us))
      else if is_low_surrogate u then utf8_bytes 0xFFFD @ utf8_encode (v # us)
      else utf8_bytes (unat u) @ utf8_encode (v # us))"





section \<open>The encoder on values\<close>

definition pushString :: "encoder \<Rightarrow> jsstring \<Rightarrow> encoder" where
  "pushString gen obj =
    (let buf = utf8_encode obj in push (pushInt gen (num (length buf)) MT_UTF8_STRING None) buf)"

definition pushBoolean :: "encoder \<Rightarrow> bool \<Rightarrow> encoder" where
  "pushBoolean gen obj = pushUInt8 gen (if obj then TRUE else FALSE)"

text \<open>
  \<open>_pushUndefined\<close> with the option \<open>encodeUndefined\<close> left undefined, the only setting
  modelled.
\<close>

definition pushUndefined :: "encoder \<Rightarrow> encoder" where
  "pushUndefined gen = pushUInt8 gen UNDEFINED"

definition pushNull :: "encoder \<Rightarrow> encoder" where
  "pushNull gen = pushUInt8 gen NULL"

definition pushTag :: "encoder \<Rightarrow> nat \<Rightarrow> encoder" where
  "pushTag gen tag = pushInt gen (num tag) MT_TAG None"

definition pushByteString :: "encoder \<Rightarrow> buffer \<Rightarrow> encoder" where
  "pushByteString gen obj = push (pushInt gen (num (length obj)) MT_BYTE_STRING None) obj"

text \<open>\<open>_pushTypedArray\<close> on a \<open>Uint8Array\<close>, the one typed array modelled.\<close>

definition pushTypedArray :: "encoder \<Rightarrow> buffer \<Rightarrow> encoder" where
  "pushTypedArray gen obj = pushByteString gen obj"

text \<open>
  \<open>Number(obj)\<close> of a bigint, and \<open>toNumber()\<close> of an integer \<open>BigNumber\<close>. The encoder
  converts only integers below \<open>2^53\<close>, on which the conversion is exact.
\<close>

definition Number_of :: "int \<Rightarrow> number" where
  "Number_of k = of_integer k"

definition pad_hex :: "string \<Rightarrow> string" where
  "pad_hex str = (if odd (length str) then CHR ''0'' # str else str)"

definition pushJSBigint :: "encoder \<Rightarrow> int \<Rightarrow> encoder" where
  "pushJSBigint gen obj0 =
    (let (obj, m, tag) =
           (if obj0 < 0 then (- obj0 + (- 1), MT_NEG_INT, TAG_NEG_BIGINT)
            else (obj0, MT_POS_INT, TAG_POS_BIGINT))
     in if collapseBigIntegers gen \<and> obj \<le> BI_MAXINT64 then
          (if obj \<le> 0xffffffff then pushInt gen (Number_of obj) m None
           else pushUInt32BE
                  (pushUInt32BE
                     (pushUInt8 gen (num_or (num_shl (num m) (num 5)) (num NUMBYTES_EIGHT)))
                     (Number_of (obj div BI_SHIFT32)))
                  (Number_of (obj mod BI_SHIFT32)))
        else
          let buf = hex_decode (pad_hex (toString16 (nat obj)))
          in pushByteString (pushTag gen tag) buf)"

text \<open>
  An integer \<open>BigNumber\<close>, the argument of \<open>_pushBigint\<close>: negative zero or an integer
  (\<open>BN_int 0\<close> is positive zero). \<open>isNegative()\<close> reads the sign, which negative zero
  has; the value of both zeros is 0.
\<close>

datatype bn_int = BN_minus_zero | BN_int int

definition BN_isNegative :: "bn_int \<Rightarrow> bool" where
  "BN_isNegative x = (case x of BN_minus_zero \<Rightarrow> True | BN_int k \<Rightarrow> k < 0)"

definition BN_value :: "bn_int \<Rightarrow> int" where
  "BN_value x = (case x of BN_minus_zero \<Rightarrow> 0 | BN_int k \<Rightarrow> k)"

text \<open>\<open>toString(16)\<close> of an integer \<open>BigNumber\<close> that is not negative zero.\<close>

definition BN_toString16 :: "int \<Rightarrow> string" where
  "BN_toString16 k = (if k < 0 then CHR ''-'' # toString16 (nat (- k)) else toString16 (nat k))"

text \<open>
  \<open>_pushBigint\<close>. After its first statement \<open>obj\<close> is an integer: \<open>obj.negated().minus(1)\<close>
  is \<open>-1\<close> for negative zero, and a difference that is zero is positive zero.
\<close>

definition pushBigint :: "encoder \<Rightarrow> bn_int \<Rightarrow> encoder" where
  "pushBigint gen obj0 =
    (let (obj, m, tag) =
           (if BN_isNegative obj0 then (- BN_value obj0 - 1, MT_NEG_INT, TAG_NEG_BIGINT)
            else (BN_value obj0, MT_POS_INT, TAG_POS_BIGINT))
     in if collapseBigIntegers gen \<and> obj \<le> BI_MAXINT64 then
          (if obj \<le> BI_MAXINT32 then pushInt gen (Number_of obj) m None
           else pushUInt32BE
                  (pushUInt32BE
                     (pushUInt8 gen (num_or (num_shl (num m) (num 5)) (num NUMBYTES_EIGHT)))
                     (Number_of (obj div BI_SHIFT32)))
                  (Number_of (obj mod BI_SHIFT32)))
        else
          let buf = hex_decode (pad_hex (BN_toString16 obj))
          in pushByteString (pushTag gen tag) buf)"

text \<open>
  \<open>_pushBigNumber\<close>. Negative zero is an integer (\<open>isInteger()\<close> holds of it). For a value
  with decimal places, \<open>slide\<close> is the integer \<open>m\<close>.
\<close>

definition pushBigNumber :: "encoder \<Rightarrow> bignumber \<Rightarrow> encoder" where
  "pushBigNumber gen obj =
    (case obj of
       BN_NaN \<Rightarrow> pushNaN gen
     | BN_Infinity neg \<Rightarrow> pushInfinity gen (if neg then NegInf else PosInf)
     | BN_NegZero \<Rightarrow> pushBigint gen BN_minus_zero
     | BN_Finite m dec \<Rightarrow>
         if dec = 0 then pushBigint gen (BN_int m)
         else
           let g = pushIntNum (pushInt (pushTag gen 4) (num 2) MT_ARRAY None) (Fin (- of_nat dec))
           in if \<bar>m\<bar> < 0x20000000000000 then pushIntNum g (Number_of m)
              else pushBigint g (BN_int m))"

text \<open>The options of \<open>_pushObject\<close>.\<close>

record push_opts =
  indefinite :: bool
  skipTypes :: bool

definition is_undefined :: "jsval \<Rightarrow> bool" where
  "is_undefined v = (v = JUndefined)"

definition is_function :: "jsval \<Rightarrow> bool" where
  "is_function v = (case v of JFunction _ \<Rightarrow> True | _ \<Rightarrow> False)"

definition loop_error :: error where
  "loop_error = Error ''Loop detected while CBOR encoding. Call removeLoopDetectors before resuming.''"

text \<open>
  The entry of \<open>_pushObject\<close>: unless the call is the indefinite one, an enabled loop
  detector refuses an object it holds and otherwise takes it in.
\<close>

definition enter_object :: "encoder \<Rightarrow> nat \<Rightarrow> bool \<Rightarrow> error + encoder" where
  "enter_object gen ident indef =
    (if \<not> indef then
       (case detectLoops gen of
          Some s \<Rightarrow> if ident \<in> s then Inl loop_error
                    else Inr (gen\<lparr>detectLoops := Some (insert ident s)\<rparr>)
        | None \<Rightarrow> Inr gen)
     else Inr gen)"

text \<open>The exit of \<open>_pushObject\<close>, reached on its own path for plain objects only.\<close>

definition leave_object :: "encoder \<Rightarrow> nat \<Rightarrow> bool \<Rightarrow> encoder" where
  "leave_object gen ident indef =
    (if indef then push gen BREAK
     else (case detectLoops gen of
             Some s \<Rightarrow> gen\<lparr>detectLoops := Some (s - {ident})\<rparr>
           | None \<Rightarrow> gen))"

definition map_head :: "encoder \<Rightarrow> nat \<Rightarrow> bool \<Rightarrow> nat \<Rightarrow> encoder" where
  "map_head gen mt indef len =
    (if indef then pushUInt8 gen (num_or (num_shl (num mt) (num 5)) (num NUMBYTES_INDEFINITE))
     else pushInt gen (num len) mt None)"

text \<open>
  \<open>pushAny\<close> and the functions it reaches. \<open>pushObject\<close> is \<open>_pushObject(obj)\<close> as
  \<open>pushAny\<close> calls it, without options. The object's own \<open>encodeCBOR\<close> (the classes
  \<open>Simple\<close> and \<open>Tagged\<close>) and the converter found in \<open>semanticTypes\<close> return from
  \<open>_pushObject\<close>; only a plain object runs the function to its end, and that path is
  \<open>pushPlainObject\<close>, which takes the options, since \<open>encodeIndefinite\<close> calls it with
  \<open>{indefinite: true, skipTypes: true}\<close>. \<open>pushAll\<close>, \<open>pushEntries\<close> and \<open>pushProps\<close> are
  the loops of \<open>_pushArray\<close> (and \<open>_pushSet\<close>), \<open>_pushMap\<close> and \<open>_pushObject\<close>. A throw
  ends the encoding with its error. The key sort under \<open>this.canonical\<close> is left out:
  the constructor refuses \<open>canonical\<close>. A plain object that holds an \<open>encodeCBOR\<close>
  function of its own is not modelled.
\<close>

text \<open>The recursion ends: every call is on a part of the value, or on the same value one step further down the dispatch.\<close>

lemma size_list_filter_less: "4 * size_list f (filter P xs) < Suc (4 * size_list f xs)"
proof -
  have "size_list f (filter P xs) \<le> size_list f xs"
    by (induction xs) auto
  then show ?thesis by simp
qed

definition push_measure ::
  "((encoder \<times> jsval + encoder \<times> jsval) +
    (encoder \<times> nat \<times> (jsstring \<times> jsval) list \<times> push_opts + encoder \<times> jsval list \<times> bool)) +
   ((encoder \<times> (jsval \<times> jsval) list \<times> bool + encoder \<times> jsval list) +
    (encoder \<times> jsval list + (encoder \<times> (jsval \<times> jsval) list + encoder \<times> (jsstring \<times> jsval) list)))
   \<Rightarrow> nat" where
  "push_measure c =
    (case c of
       Inl (Inl (Inl (g, v))) \<Rightarrow> 4 * size v + 3
     | Inl (Inl (Inr (g, v))) \<Rightarrow> 4 * size v + 2
     | Inl (Inr (Inl (g, i, ps, opts))) \<Rightarrow> 4 * size_list (size_prod (\<lambda>x. 0) size) ps + 1
     | Inl (Inr (Inr (g, xs, b))) \<Rightarrow> 4 * size_list size xs + 1
     | Inr (Inl (Inl (g, es, b))) \<Rightarrow> 4 * size_list (size_prod size size) es + 1
     | Inr (Inl (Inr (g, xs))) \<Rightarrow> 4 * size_list size xs + 1
     | Inr (Inr (Inl (g, xs))) \<Rightarrow> 4 * size_list size xs
     | Inr (Inr (Inr (Inl (g, es)))) \<Rightarrow> 4 * size_list (size_prod size size) es
     | Inr (Inr (Inr (Inr (g, ps)))) \<Rightarrow> 4 * size_list (size_prod (\<lambda>x. 0) size) ps)"

function (sequential) pushAny :: "encoder \<Rightarrow> jsval \<Rightarrow> error + encoder"
  and pushObject :: "encoder \<Rightarrow> jsval \<Rightarrow> error + encoder"
  and pushPlainObject :: "encoder \<Rightarrow> nat \<Rightarrow> (jsstring \<times> jsval) list \<Rightarrow> push_opts \<Rightarrow> error + encoder"
  and pushArray :: "encoder \<Rightarrow> jsval list \<Rightarrow> bool \<Rightarrow> error + encoder"
  and pushMap :: "encoder \<Rightarrow> (jsval \<times> jsval) list \<Rightarrow> bool \<Rightarrow> error + encoder"
  and pushSet :: "encoder \<Rightarrow> jsval list \<Rightarrow> error + encoder"
  and pushAll :: "encoder \<Rightarrow> jsval list \<Rightarrow> error + encoder"
  and pushEntries :: "encoder \<Rightarrow> (jsval \<times> jsval) list \<Rightarrow> error + encoder"
  and pushProps :: "encoder \<Rightarrow> (jsstring \<times> jsval) list \<Rightarrow> error + encoder"
where
  "pushAny gen (JNumber x) = Inr (pushNumber gen x)"
| "pushAny gen (JBigInt x) = Inr (pushJSBigint gen x)"
| "pushAny gen (JString x) = Inr (pushString gen x)"
| "pushAny gen (JBoolean x) = Inr (pushBoolean gen x)"
| "pushAny gen JUndefined = Inr (pushUndefined gen)"
| "pushAny gen (JSymbol x) =
     (case x of
        SYMS_NULL \<Rightarrow> Inr (pushNull gen)
      | SYMS_UNDEFINED \<Rightarrow> Inr (pushUndefined gen)
      | _ \<Rightarrow> Inl (Error ''Unknown symbol''))"
| "pushAny gen (JFunction x) = Inl (Error ''Unknown type: function'')"
| "pushAny gen JNull = pushObject gen JNull"
| "pushAny gen (JUint8Array i x) = pushObject gen (JUint8Array i x)"
| "pushAny gen (JArray i x) = pushObject gen (JArray i x)"
| "pushAny gen (JMap i x) = pushObject gen (JMap i x)"
| "pushAny gen (JSet i x) = pushObject gen (JSet i x)"
| "pushAny gen (JObject i x) = pushObject gen (JObject i x)"
| "pushAny gen (JBigNumber i x) = pushObject gen (JBigNumber i x)"
| "pushAny gen (JSimple i x) = pushObject gen (JSimple i x)"
| "pushAny gen (JTagged i t x e) = pushObject gen (JTagged i t x e)"

| "pushObject gen JNull = Inr (pushNull gen)"
| "pushObject gen (JSimple i x) =
     (case enter_object gen i False of Inl e \<Rightarrow> Inl e
      | Inr g \<Rightarrow> Inr (pushInt g (num x) MT_SIMPLE_FLOAT None))"
| "pushObject gen (JTagged i t x err) =
     (case enter_object gen i False of Inl e \<Rightarrow> Inl e
      | Inr g \<Rightarrow> pushAny (pushTag g t) x)"
| "pushObject gen (JUint8Array i x) =
     (case enter_object gen i False of Inl e \<Rightarrow> Inl e
      | Inr g \<Rightarrow> Inr (pushTypedArray g x))"
| "pushObject gen (JArray i x) =
     (case enter_object gen i False of Inl e \<Rightarrow> Inl e
      | Inr g \<Rightarrow> pushArray g x False)"
| "pushObject gen (JMap i x) =
     (case enter_object gen i False of Inl e \<Rightarrow> Inl e
      | Inr g \<Rightarrow> pushMap g x False)"
| "pushObject gen (JSet i x) =
     (case enter_object gen i False of Inl e \<Rightarrow> Inl e
      | Inr g \<Rightarrow> pushSet g x)"
| "pushObject gen (JBigNumber i x) =
     (case enter_object gen i False of Inl e \<Rightarrow> Inl e
      | Inr g \<Rightarrow> Inr (pushBigNumber g x))"
| "pushObject gen (JObject i props) =
     pushPlainObject gen i props \<lparr>indefinite = False, skipTypes = False\<rparr>"

| "pushPlainObject gen i props opts =
     (case enter_object gen i (indefinite opts) of Inl e \<Rightarrow> Inl e
      | Inr g \<Rightarrow>
          (let keys = filter (\<lambda>(k, v). \<not> is_function v \<and>
                               (\<not> omitUndefinedProperties g \<or> \<not> is_undefined v)) props
           in case pushProps (map_head g MT_MAP (indefinite opts) (length keys)) keys of
                Inl e \<Rightarrow> Inl e
              | Inr g' \<Rightarrow> Inr (leave_object g' i (indefinite opts))))"

| "pushArray gen xs indef =
     (case pushAll (map_head gen MT_ARRAY indef (length xs)) xs of
        Inl e \<Rightarrow> Inl e
      | Inr g \<Rightarrow> Inr (if indef then push g BREAK else g))"

| "pushMap gen es indef =
     (let entries = (if omitUndefinedProperties gen
                     then filter (\<lambda>(k, v). \<not> is_undefined v) es else es)
      in case pushEntries (map_head gen MT_MAP indef (length entries)) entries of
           Inl e \<Rightarrow> Inl e
         | Inr g \<Rightarrow> Inr (if indef then push g BREAK else g))"

| "pushSet gen xs = pushAll (pushInt (pushTag gen TAG_SET) (num (length xs)) MT_ARRAY None) xs"

| "pushAll gen [] = Inr gen"
| "pushAll gen (x # xs) =
     (case pushAny gen x of Inl e \<Rightarrow> Inl e | Inr g \<Rightarrow> pushAll g xs)"

| "pushEntries gen [] = Inr gen"
| "pushEntries gen ((k, v) # es) =
     (if disallowUndefinedKeys gen \<and> is_undefined k then Inl (Error ''Invalid Map key: undefined'')
      else case pushAny gen k of Inl e \<Rightarrow> Inl e
           | Inr g \<Rightarrow> (case pushAny g v of Inl e \<Rightarrow> Inl e | Inr g' \<Rightarrow> pushEntries g' es))"

| "pushProps gen [] = Inr gen"
| "pushProps gen ((k, v) # ps) =
     (case pushAny (pushString gen k) v of Inl e \<Rightarrow> Inl e | Inr g \<Rightarrow> pushProps g ps)"
  by pat_completeness auto

termination
  apply (relation "measure push_measure")
  apply (simp_all add: push_measure_def size_list_filter_less)
  done

text \<open>\<open>_encodeAll\<close>, \<open>encode\<close> and \<open>encodeOne\<close>; beside the bytes they return, the model
  keeps the encoder, whose loop detector the caller may have supplied and still holds.\<close>

definition encodeAll :: "encoder \<Rightarrow> jsval list \<Rightarrow> error + (buffer \<times> encoder)" where
  "encodeAll gen objs = (case pushAll gen objs of Inl e \<Rightarrow> Inl e | Inr g \<Rightarrow> Inr (flush g))"

definition encode :: "jsval list \<Rightarrow> error + (buffer \<times> encoder)" where
  "encode objs =
    (case new_Encoder default_options of Inl e \<Rightarrow> Inl e | Inr gen \<Rightarrow> encodeAll gen objs)"

definition encodeOne :: "jsval \<Rightarrow> options \<Rightarrow> error + (buffer \<times> encoder)" where
  "encodeOne obj opts =
    (case new_Encoder opts of Inl e \<Rightarrow> Inl e | Inr gen \<Rightarrow> encodeAll gen [obj])"

definition removeLoopDetectors :: "encoder \<Rightarrow> bool \<times> encoder" where
  "removeLoopDetectors gen =
    (case detectLoops gen of None \<Rightarrow> (False, gen)
     | Some s \<Rightarrow> (True, gen\<lparr>detectLoops := Some {}\<rparr>))"

subsection \<open>Indefinite encoding\<close>

text \<open>\<open>slice(start, end)\<close> of a string or a typed array, on indices that are in order.\<close>

definition slice :: "'a list \<Rightarrow> nat \<Rightarrow> nat \<Rightarrow> 'a list" where
  "slice xs start end = take (end - start) (drop start xs)"

text \<open>
  The two chunk loops of \<open>encodeIndefinite\<close>. With a chunk size of 0 the offset never
  moves and the loop of the source does not end; \<open>None\<close> is that outcome.
\<close>

partial_function (option) string_chunks :: "encoder \<Rightarrow> jsstring \<Rightarrow> nat \<Rightarrow> nat \<Rightarrow> encoder option" where
  "string_chunks gen obj offset chunkSize =
    (if offset < length obj
     then string_chunks (pushString gen (slice obj offset (offset + chunkSize))) obj
            (offset + chunkSize) chunkSize
     else Some gen)"

partial_function (option) buffer_chunks :: "encoder \<Rightarrow> buffer \<Rightarrow> nat \<Rightarrow> nat \<Rightarrow> encoder option" where
  "buffer_chunks gen buf offset chunkSize =
    (if offset < length buf
     then buffer_chunks (pushTypedArray gen (slice buf offset (offset + chunkSize))) buf
            (offset + chunkSize) chunkSize
     else Some gen)"

text \<open>
  \<open>Encoder.encodeIndefinite(gen, obj, {chunkSize})\<close>, called on the class. For \<open>null\<close> and
  \<open>undefined\<close> the object becomes \<open>this\<close>, the class itself, which is a function. The
  instances of \<open>Set\<close>, \<open>BigNumber\<close>, \<open>Simple\<close> and \<open>Tagged\<close> are left open: the function
  is given no value on them.
\<close>

fun encodeIndefinite :: "encoder \<Rightarrow> jsval \<Rightarrow> nat \<Rightarrow> (error + encoder) option" where
  "encodeIndefinite gen (JString obj) chunkSize =
     map_option (\<lambda>g. Inr (push g BREAK))
       (string_chunks
          (pushUInt8 gen (num_or (num_shl (num MT_UTF8_STRING) (num 5)) (num NUMBYTES_INDEFINITE)))
          obj 0 chunkSize)"
| "encodeIndefinite gen (JUint8Array i buf) chunkSize =
     map_option (\<lambda>g. Inr (push g BREAK))
       (buffer_chunks
          (pushUInt8 gen (num_or (num_shl (num MT_BYTE_STRING) (num 5)) (num NUMBYTES_INDEFINITE)))
          buf 0 chunkSize)"
| "encodeIndefinite gen (JArray i xs) chunkSize = Some (pushArray gen xs True)"
| "encodeIndefinite gen (JMap i es) chunkSize = Some (pushMap gen es True)"
| "encodeIndefinite gen (JObject i props) chunkSize =
     Some (pushPlainObject gen i props \<lparr>indefinite = True, skipTypes = True\<rparr>)"
| "encodeIndefinite gen (JNumber x) chunkSize = Some (Inl (Error ''Invalid indefinite encoding''))"
| "encodeIndefinite gen (JBigInt x) chunkSize = Some (Inl (Error ''Invalid indefinite encoding''))"
| "encodeIndefinite gen (JBoolean x) chunkSize = Some (Inl (Error ''Invalid indefinite encoding''))"
| "encodeIndefinite gen (JSymbol x) chunkSize = Some (Inl (Error ''Invalid indefinite encoding''))"
| "encodeIndefinite gen (JFunction x) chunkSize = Some (Inl (Error ''Invalid indefinite encoding''))"
| "encodeIndefinite gen JNull chunkSize = Some (Inl (Error ''Invalid indefinite encoding''))"
| "encodeIndefinite gen JUndefined chunkSize = Some (Inl (Error ''Invalid indefinite encoding''))"

section \<open>Simple values (Simple.js)\<close>

text \<open>
  \<open>new Simple(value)\<close> and \<open>Simple.decode\<close>. The identity of an object the library creates
  is not tracked: it is 0.
\<close>

definition new_Simple :: "number \<Rightarrow> error + jsval" where
  "new_Simple v =
    (if num_lt v (num 0) \<or> num_lt (num 255) v \<or> \<not> strict_eq (num_or v (num 0)) v
     then Inl (Error ''value must be a small positive integer'')
     else Inr (JSimple 0 (nat (to_integer v))))"

definition Simple_decode :: "number \<Rightarrow> bool \<Rightarrow> bool \<Rightarrow> error + jsval" where
  "Simple_decode val has_parent parent_indefinite =
    (if strict_eq val (num SIMPLE_FALSE) then Inr (JBoolean False)
     else if strict_eq val (num SIMPLE_TRUE) then Inr (JBoolean True)
     else if strict_eq val (num SIMPLE_NULL) then
       (if has_parent then Inr JNull else Inr (JSymbol SYMS_NULL))
     else if strict_eq val (num SIMPLE_UNDEFINED) then
       (if has_parent then Inr JUndefined else Inr (JSymbol SYMS_UNDEFINED))
     else if strict_eq val (Fin (- 1)) then
       (if \<not> has_parent \<or> \<not> parent_indefinite then Inl (Error ''Invalid BREAK'')
        else Inr (JSymbol SYMS_BREAK))
     else new_Simple val)"

section \<open>Reading integers and floats (util.js)\<close>

text \<open>A \<open>DataView\<close> getter of \<open>w\<close> bytes at an offset: a \<open>RangeError\<close> past the end.\<close>

definition dv_getUint :: "buffer \<Rightarrow> nat \<Rightarrow> nat \<Rightarrow> error + nat" where
  "dv_getUint buf off w =
    (if off + w \<le> length buf then Inr (getUint (take w (drop off buf)))
     else Inl (RangeError ''Offset is outside the bounds of the DataView''))"

text \<open>
  \<open>parseCBORint(ai, buf, bigInt)\<close>. In the last branch \<open>(f * SHIFT32) + g\<close> is computed
  on numbers; there \<open>f \<le> 0x1fffff\<close>, so the product and the sum are below \<open>2^53\<close> and
  exact.
\<close>

definition parseCBORint :: "nat \<Rightarrow> buffer \<Rightarrow> bool \<Rightarrow> error + jsval" where
  "parseCBORint ai buf bigInt =
    (if ai = NUMBYTES_ONE then map_sum id (\<lambda>v. JNumber (num v)) (dv_getUint buf 0 1)
     else if ai = NUMBYTES_TWO then map_sum id (\<lambda>v. JNumber (num v)) (dv_getUint buf 0 2)
     else if ai = NUMBYTES_FOUR then map_sum id (\<lambda>v. JNumber (num v)) (dv_getUint buf 0 4)
     else if ai = NUMBYTES_EIGHT then
       (case dv_getUint buf 0 4 of Inl e \<Rightarrow> Inl e
        | Inr f \<Rightarrow>
            (case dv_getUint buf 4 4 of Inl e \<Rightarrow> Inl e
             | Inr g \<Rightarrow>
                 if f > MAX_SAFE_HIGH then
                   (if bigInt then Inr (JBigInt (int f * BI_SHIFT32 + int g))
                    else Inr (JBigNumber 0 (BN_Finite (int f * int SHIFT32 + int g) 0)))
                 else Inr (JNumber (num (f * SHIFT32 + g)))))
     else Inl (Error ''Invalid additional info for int''))"


section \<open>Tagged items (Tagged.js)\<close>

text \<open>
  An interpreter of a tag is called as \<open>f.call(this, this.value)\<close>: it takes the tagged
  item and its value and returns a value or throws. \<open>message_of\<close> is \<open>error.message\<close>.
\<close>

type_synonym interpreter = "jsval \<Rightarrow> jsval \<Rightarrow> error + jsval"

definition message_of :: "error \<Rightarrow> string" where
  "message_of e = (case e of Error m \<Rightarrow> m | TypeError m \<Rightarrow> m | RangeError m \<Rightarrow> m)"

text \<open>
  \<open>convert(converters)\<close>. \<open>converters\<close> holds the functions the caller passed, by tag;
  \<open>statics\<close> stands for the interpreters of the class, \<open>Tagged['_tag_' + tag]\<close> and, for the
  tags of \<open>TYPED_ARRAY_TAGS\<close>, \<open>_toTypedArray\<close>. The result is \<open>Inl\<close> where \<open>convert\<close> itself
  would throw.
\<close>

definition Tagged_convert ::
  "(nat \<Rightarrow> interpreter option) \<Rightarrow> (nat \<Rightarrow> interpreter option) \<Rightarrow> jsval \<Rightarrow> error + jsval" where
  "Tagged_convert converters statics this =
    (case this of
       JTagged i tag v err \<Rightarrow>
         (case (case converters tag of Some f \<Rightarrow> Some f | None \<Rightarrow> statics tag) of
            None \<Rightarrow> Inr this
          | Some f \<Rightarrow>
              (case f this v of
                 Inr r \<Rightarrow> Inr r
               | Inl error \<Rightarrow>
                   Inr (JTagged i tag v
                         (Some (if message_of error \<noteq> [] then ErrMessage (message_of error)
                                else ErrObject error)))))
     | _ \<Rightarrow> Inl (TypeError ''convert is not a function''))"

text \<open>
  One interpreter of the class that needs nothing of the host but strings: \<open>_tag_33\<close>
  (base64url). It returns \<open>this\<close> or throws.
\<close>

definition char_in :: "16 word \<Rightarrow> nat list \<Rightarrow> bool" where
  "char_in c codes = (unat c \<in> set codes)"

definition is_alnum :: "16 word \<Rightarrow> bool" where
  "is_alnum c = ((97 \<le> unat c \<and> unat c \<le> 122) \<or> (65 \<le> unat c \<and> unat c \<le> 90)
                 \<or> (48 \<le> unat c \<and> unat c \<le> 57))"

text \<open>The characters of \<open>'AQgw'\<close> and of \<open>'AEIMQUYcgkosw048'\<close>.\<close>

definition zero4 :: "nat list" where
  "zero4 = [65, 81, 103, 119]"

definition zero2 :: "nat list" where
  "zero2 = [65, 69, 73, 77, 81, 85, 89, 99, 103, 107, 111, 115, 119, 48, 52, 56]"

definition tag_33 :: interpreter where
  "tag_33 this v =
    (case v of
       JString s \<Rightarrow>
         if \<not> (s \<noteq> [] \<and> list_all (\<lambda>c. is_alnum c \<or> char_in c [95, 45]) s)
         then Inl (Error ''Invalid base64url characters'')
         else
           let last = length s mod 4
           in if last = 1 then Inl (Error ''Invalid base64url length'')
              else if last = 2 \<and> \<not> char_in (s ! (length s - 1)) zero4
                then Inl (Error ''Invalid base64 padding'')
              else if last = 3 \<and> \<not> char_in (s ! (length s - 1)) zero2
                then Inl (Error ''Invalid base64 padding'')
              else Inr this
     | _ \<Rightarrow> Inl (TypeError ''v.match is not a function''))"

definition class_statics :: "nat \<Rightarrow> interpreter option" where
  "class_statics tag = (if tag = 33 then Some tag_33 else None)"

text \<open>A converter a caller may install: it throws on every value.\<close>

definition strict_interpreter :: interpreter where
  "strict_interpreter this v = Inl (Error ''strict'')"

definition strict_converters :: "nat \<Rightarrow> interpreter option" where
  "strict_converters tag = (if tag = 99 then Some strict_interpreter else None)"

section \<open>The head of the specification\<close>

text \<open>
  The head as section 4.1 of the specification words it: one byte \<open>(mt<<5)|n\<close> when
  \<open>n < 24\<close>, else the byte \<open>(mt<<5)|(23+log2(w)+1)\<close> and \<open>n\<close> big-endian in the \<open>w\<close>
  bytes of the smallest width in 1, 2, 4, 8 that holds \<open>n\<close>.
\<close>

definition big_endian :: "nat \<Rightarrow> nat \<Rightarrow> buffer" where
  "big_endian w n = map (\<lambda>i. of_nat (n div 256 ^ i)) (rev [0..<w])"

definition holds_in :: "nat \<Rightarrow> nat \<Rightarrow> bool" where
  "holds_in w n = (n < 256 ^ w)"

definition head_width :: "nat \<Rightarrow> nat" where
  "head_width n = (if holds_in 1 n then 1 else if holds_in 2 n then 2
                   else if holds_in 4 n then 4 else 8)"

definition log2w :: "nat \<Rightarrow> nat" where
  "log2w w = (if w = 1 then 0 else if w = 2 then 1 else if w = 4 then 2 else 3)"

text \<open>
  The bytes of a bignum as section 4.4.4 of the specification words them: the magnitude
  big-endian, in as many bytes as an even number of hexadecimal digits takes (at least
  one).
\<close>

fun unsigned_be_bytes :: "nat \<Rightarrow> buffer" where
  "unsigned_be_bytes n = (if n < 256 then [of_nat n] else unsigned_be_bytes (n div 256) @ [of_nat n])"

declare unsigned_be_bytes.simps [simp del]

definition write_head :: "nat \<Rightarrow> nat \<Rightarrow> buffer" where
  "write_head mt n =
    (if n < 24 then [of_nat (push_bit 5 mt OR n)]
     else of_nat (push_bit 5 mt OR (23 + log2w (head_width n) + 1))
          # big_endian (head_width n) n)"

section \<open>Facts about the host model\<close>

subsection \<open>Numbers that are natural numbers\<close>

lemma num_lt_num [simp]: "num_lt (num a) (num b) = (a < b)"
  by (simp add: num_lt_def num_def ord_key_def)

lemma num_le_num [simp]: "num_le (num a) (num b) = (a \<le> b)"
  by (simp add: num_le_def num_def ord_key_def)

lemma to_integer_num [simp]: "to_integer (num n) = int n"
  by (simp add: to_integer_def num_def trunc_def)

lemma of_integer_int [simp]: "of_integer (int n) = num n"
  by (simp add: of_integer_def num_def)

lemma int32_small: "n < 2 ^ 31 \<Longrightarrow> int32 (int n) = int n"
  unfolding int32_def by (rule signed_take_bit_int_eq_self) simp_all

lemma num_or_num: "a < 2 ^ 31 \<Longrightarrow> b < 2 ^ 31 \<Longrightarrow> num_or (num a) (num b) = num (a OR b)"
  by (simp add: num_or_def js_or_def int32_small of_nat_or_eq [symmetric])

lemma num_shl_5: "mt \<le> 7 \<Longrightarrow> num_shl (num mt) (num 5) = num (push_bit 5 mt)"
proof -
  assume a: "mt \<le> 7"
  then have b: "mt < 2 ^ 31" by simp
  from a have "push_bit 5 mt < (2::nat) ^ 31" by (simp add: push_bit_eq_mult)
  then have "int32 (int (push_bit 5 mt)) = int (push_bit 5 mt)" by (rule int32_small)
  then show ?thesis
    by (simp add: num_shl_def js_shl_def int32_small [OF b] push_bit_of_nat)
qed

lemma to_uint_num [simp]: "to_uint k (num n) = n mod 2 ^ k"
  by (simp add: to_uint_def nat_mod_distrib nat_power_eq)

lemma floor_nat_div: "\<lfloor>(of_nat n :: rat) / 2 ^ k\<rfloor> = int (n div 2 ^ k)"
proof -
  have "\<lfloor>(of_nat n :: rat) / of_nat (2 ^ k)\<rfloor> = int (n div 2 ^ k)"
    by (rule floor_divide_of_nat_eq)
  then show ?thesis by simp
qed

lemma rat_mod_eq: "(of_nat n :: rat) - 2 ^ k * of_nat (n div 2 ^ k) = of_nat (n mod 2 ^ k)"
proof -
  have "(of_nat n :: rat) = of_nat (2 ^ k * (n div 2 ^ k) + n mod 2 ^ k)" by simp
  also have "\<dots> = 2 ^ k * of_nat (n div 2 ^ k) + of_nat (n mod 2 ^ k)"
    by (simp only: of_nat_add of_nat_mult of_nat_power of_nat_numeral)
  finally show ?thesis by simp
qed

lemma floor_div_SHIFT32_num: "Math_floor (div_SHIFT32 (num n)) = num (n div 2 ^ 32)"
  using floor_nat_div [of n 32] by (simp add: Math_floor_def div_SHIFT32_def num_def)

lemma mod_SHIFT32_num: "mod_SHIFT32 (num n) = num (n mod 2 ^ 32)"
  using rat_mod_eq [of n 32] floor_nat_div [of n 32]
  by (simp add: mod_SHIFT32_def num_def trunc_def Let_def)

lemma head_byte_num:
  "mt \<le> 7 \<Longrightarrow> k < 32 \<Longrightarrow>
   num_or (num_shl (num mt) (num 5)) (num k) = num (push_bit 5 mt OR k)"
proof -
  assume a: "mt \<le> 7" and k: "k < 32"
  from a have "push_bit 5 mt < (2::nat) ^ 31" by (simp add: push_bit_eq_mult)
  moreover from k have "k < 2 ^ 31" by simp
  ultimately show ?thesis by (simp add: num_shl_5 [OF a] num_or_num)
qed

subsection \<open>Big-endian bytes\<close>

lemma byte_of_nat_mod: "(of_nat (n mod 256) :: byte) = of_nat n"
  by (simp add: word_of_nat_eq_iff take_bit_eq_mod)

lemma byte_of_low:
  "k + 8 \<le> w \<Longrightarrow> (of_nat ((n mod 2 ^ w) div 2 ^ k) :: byte) = of_nat (n div 2 ^ k)"
proof -
  assume a: "k + 8 \<le> w"
  have "take_bit 8 (drop_bit k (take_bit w n)) = take_bit 8 (take_bit (w - k) (drop_bit k n))"
    by (simp only: drop_bit_take_bit)
  also have "\<dots> = take_bit (min 8 (w - k)) (drop_bit k n)"
    by (simp only: take_bit_take_bit)
  also from a have "min 8 (w - k) = 8" by simp
  finally have "take_bit 8 ((n mod 2 ^ w) div 2 ^ k) = take_bit 8 (n div 2 ^ k)"
    by (simp only: take_bit_eq_mod drop_bit_eq_div)
  then show ?thesis by (simp add: word_of_nat_eq_iff)
qed

lemma uint8_bytes_mod: "uint8_bytes (n mod 2 ^ 8) = big_endian 1 n"
  using byte_of_nat_mod [of n] by (simp add: uint8_bytes_def big_endian_def)

lemma uint16_bytes_mod: "uint16_bytes (n mod 2 ^ 16) = big_endian 2 n"
  using byte_of_low [of 8 16 n] byte_of_low [of 0 16 n]
  by (simp add: uint16_bytes_def big_endian_def upt_rec)

lemma uint32_bytes_mod: "uint32_bytes (n mod 2 ^ 32) = big_endian 4 n"
  using byte_of_low [of 24 32 n] byte_of_low [of 16 32 n] byte_of_low [of 8 32 n]
    byte_of_low [of 0 32 n]
  by (simp add: uint32_bytes_def big_endian_def upt_rec)

lemma uint64_bytes_mod:
  "uint32_bytes ((n div 2 ^ 32) mod 2 ^ 32) @ uint32_bytes ((n mod 2 ^ 32) mod 2 ^ 32) =
   big_endian 8 n"
  apply (simp only: uint32_bytes_mod mod_mod_trivial)
  apply (simp add: big_endian_def upt_rec div_mult2_eq [symmetric])
  done

subsection \<open>Evaluating the IEEE-754 encoding\<close>

lemma pow2_powi: "pow2 e = 2 powi e"
  by (simp add: pow2_def power_int_def power_one_over [symmetric] inverse_eq_divide)

lemma pow2_pos [simp]: "0 < pow2 e"
  by (simp add: pow2_powi)

lemma pow2_add: "pow2 (a + b) = pow2 a * pow2 b"
  by (simp add: pow2_powi power_int_add)

lemma pow2_strict_mono: "a < b \<Longrightarrow> pow2 a < pow2 b"
  unfolding pow2_powi by (rule power_int_strict_increasing) simp_all

lemma pow2_mono: "a \<le> b \<Longrightarrow> pow2 a \<le> pow2 b"
  unfolding pow2_powi by (rule power_int_increasing) simp_all

lemma pow2_less_iff [simp]: "pow2 a < pow2 b \<longleftrightarrow> a < b"
  using pow2_strict_mono [of a b] pow2_mono [of b a] by (auto simp: not_less [symmetric])

lemma pow2_le_iff [simp]: "pow2 a \<le> pow2 b \<longleftrightarrow> a \<le> b"
  using pow2_strict_mono [of b a] pow2_mono [of a b] by (auto simp: not_le [symmetric])

lemma pow2_nat: "0 \<le> e \<Longrightarrow> pow2 e = 2 ^ nat e"
  by (simp add: pow2_def)

lemma ilog2_unique:
  assumes "pow2 e \<le> a" "a < pow2 (e + 1)" "pow2 e' \<le> a" "a < pow2 (e' + 1)"
  shows "e = e'"
proof -
  from assms(1,4) have "pow2 e < pow2 (e' + 1)" by (rule le_less_trans)
  then have 1: "e \<le> e'" by simp
  from assms(3,2) have "pow2 e' < pow2 (e + 1)" by (rule le_less_trans)
  then have "e' \<le> e" by simp
  with 1 show ?thesis by simp
qed

lemma bitlen_rat_bounds:
  assumes "0 < (p::int)"
  shows "pow2 (bitlen p - 1) \<le> of_int p" "of_int p < pow2 (bitlen p)"
proof -
  from assms have b: "2 ^ nat (bitlen p - 1) \<le> p" "p < 2 ^ nat (bitlen p)"
    using bitlen_bounds [of p] by simp_all
  from assms have pos: "0 < bitlen p"
    using bitlen_nonneg [of p] bitlen_eq_zero_iff [of p] by linarith
  from b(1) have "(of_int (2 ^ nat (bitlen p - 1)) :: rat) \<le> of_int p" by (simp only: of_int_le_iff)
  with pos show "pow2 (bitlen p - 1) \<le> of_int p" by (simp add: pow2_nat)
  from b(2) have "(of_int p :: rat) < of_int (2 ^ nat (bitlen p))" by (simp only: of_int_less_iff)
  with pos show "of_int p < pow2 (bitlen p)" by (simp add: pow2_nat)
qed

lemma ilog2_bounds:
  assumes "0 < a"
  shows "pow2 (ilog2 a) \<le> a" "a < pow2 (ilog2 a + 1)"
proof -
  obtain p q where pq: "quotient_of a = (p, q)" by (cases "quotient_of a")
  then have q: "0 < q" by (rule quotient_of_denom_pos)
  from pq have a: "a = of_int p / of_int q" by (rule quotient_of_div)
  with assms q have p: "0 < p" by (simp add: zero_less_divide_iff)
  define k where "k = bitlen p - bitlen q"
  note bp = bitlen_rat_bounds [OF p] and bq = bitlen_rat_bounds [OF q]
  have qpos: "(0::rat) < of_int q" using q by simp
  have up: "a < pow2 (k + 1)"
  proof -
    have "of_int p < pow2 (bitlen p)" by (rule bp)
    also have "pow2 (bitlen p) = pow2 (k + 1) * pow2 (bitlen q - 1)"
      by (simp add: k_def pow2_add [symmetric])
    also have "\<dots> \<le> pow2 (k + 1) * of_int q"
      using bq(1) by (simp add: mult_left_mono less_imp_le)
    finally show ?thesis using qpos by (simp add: a pos_divide_less_eq)
  qed
  have lo: "pow2 (k - 1) < a"
  proof -
    have "pow2 (k - 1) * of_int q < pow2 (k - 1) * pow2 (bitlen q)"
      using bq(2) by (simp add: mult_strict_left_mono)
    also have "\<dots> = pow2 (bitlen p - 1)" by (simp add: k_def pow2_add [symmetric])
    also have "\<dots> \<le> of_int p" by (rule bp)
    finally show ?thesis using qpos by (simp add: a pos_less_divide_eq)
  qed
  have il: "ilog2 a = (if pow2 k \<le> a then k else k - 1)"
    by (simp add: ilog2_def pq k_def Let_def)
  show "pow2 (ilog2 a) \<le> a" using lo by (simp add: il less_imp_le)
  show "a < pow2 (ilog2 a + 1)" using up by (simp add: il not_le)
qed

lemma ilog2_eqI: "pow2 e \<le> a \<Longrightarrow> a < pow2 (e + 1) \<Longrightarrow> ilog2 a = e"
proof -
  assume 1: "pow2 e \<le> a" and 2: "a < pow2 (e + 1)"
  have "0 < a" using pow2_pos [of e] 1 by linarith
  then have "pow2 (ilog2 a) \<le> a" "a < pow2 (ilog2 a + 1)" by (rule ilog2_bounds)+
  then show ?thesis using 1 2 by (rule ilog2_unique)
qed

lemma rhe_exact: "round_half_even (of_int m) = m"
  by (simp add: round_half_even_def)

lemma rhe_down: "of_int m \<le> x \<Longrightarrow> x < of_int m + 1 / 2 \<Longrightarrow> round_half_even x = m"
proof -
  assume a: "of_int m \<le> x" "x < of_int m + 1 / 2"
  then have "\<lfloor>x\<rfloor> = m" by (simp add: floor_eq_iff)
  with a show ?thesis by (simp add: round_half_even_def Let_def)
qed

lemma rhe_up: "of_int m - 1 / 2 < x \<Longrightarrow> x < of_int m \<Longrightarrow> round_half_even x = m"
proof -
  assume a: "of_int m - 1 / 2 < x" "x < of_int m"
  then have "\<lfloor>x\<rfloor> = m - 1" by (simp add: floor_eq_iff)
  with a show ?thesis by (simp add: round_half_even_def Let_def)
qed

lemma ieee_encode_Fin:
  assumes "r \<noteq> 0" and "pow2 e \<le> \<bar>r\<bar>" and "\<bar>r\<bar> < pow2 (e + 1)"
    and "round_half_even (\<bar>r\<bar> / pow2 (max e (2 - 2 ^ (ebits - 1)) - int mbits)) = m"
  shows "ieee_encode ebits mbits (Fin r) =
    (if r < 0 then 2 ^ (ebits + mbits) else 0) +
    min (if 2 - 2 ^ (ebits - 1) \<le> e then nat (e - (2 - 2 ^ (ebits - 1))) * 2 ^ mbits + nat m else nat m)
        ((2 ^ ebits - 1) * 2 ^ mbits)"
proof -
  from assms(2,3) have "ilog2 \<bar>r\<bar> = e" by (rule ilog2_eqI)
  with assms(1,4) show ?thesis by (auto simp add: ieee_encode_def Let_def max_def)
qed

lemma to_float32_2p53: "to_float32 (Fin (2 ^ 53)) = 0x5a000000"
proof -
  have rd: "round_half_even (\<bar>2 ^ 53\<bar> / pow2 (max 53 (2 - 2 ^ (8 - 1)) - int 23)) = 8388608"
    using rhe_exact [of 8388608] by (simp add: pow2_def)
  show ?thesis
    unfolding to_float32_def
    using ieee_encode_Fin [where r = "2 ^ 53" and e = 53 and ebits = 8 and mbits = 23, OF _ _ _ rd]
    by (simp add: pow2_def)
qed

section \<open>The head of an item\<close>

lemma HALF_eq: "HALF = num 0xf9"
  using head_byte_num [of 7 25] by (simp add: HALF_def)

lemma FLOAT_eq: "FLOAT = num 0xfa"
  using head_byte_num [of 7 26] by (simp add: FLOAT_def)

lemma DOUBLE_eq: "DOUBLE = num 0xfb"
  using head_byte_num [of 7 27] by (simp add: DOUBLE_def)




lemma UNDEFINED_eq: "UNDEFINED = num 0xf7"
  using head_byte_num [of 7 23] by (simp add: UNDEFINED_def)

lemma output_push [simp]:
  "concatBuffers (stream (push gen buf)) = concatBuffers (stream gen) @ buf"
  by (simp add: push_def concatBuffers_def)

lemma head_width_cases:
  "head_width n = (if n < 2 ^ 8 then 1 else if n < 2 ^ 16 then 2 else if n < 2 ^ 32 then 4 else 8)"
  by (simp add: head_width_def holds_in_def)

lemma pushInt_write_head:
  assumes "mt \<le> 7" and "n \<le> MAX_SAFE_INTEGER"
  shows "concatBuffers (stream (pushInt gen (num n) mt orig)) =
         concatBuffers (stream gen) @ write_head mt n"
proof -
  note hb = head_byte_num [OF assms(1)]
  consider "n < 24" | "24 \<le> n" "n \<le> 0xff" | "0xff < n" "n \<le> 0xffff"
    | "0xffff < n" "n \<le> 0xffffffff" | "0xffffffff < n"
    by linarith
  then show ?thesis
  proof cases
    case 1
    then show ?thesis
      using byte_of_nat_mod [of "push_bit 5 mt OR n"]
      by (simp add: pushInt_def Let_def hb pushUInt8_def uint8_bytes_def write_head_def)
  next
    case 2
    then show ?thesis
      using byte_of_nat_mod [of "push_bit 5 mt OR 24"] uint8_bytes_mod [of n]
      by (simp add: pushInt_def Let_def hb pushUInt8_def write_head_def head_width_cases
          log2w_def)
        (simp add: uint8_bytes_def)
  next
    case 3
    then show ?thesis
      using byte_of_nat_mod [of "push_bit 5 mt OR 25"] uint16_bytes_mod [of n]
      by (simp add: pushInt_def Let_def hb pushUInt8_def pushUInt16BE_def write_head_def
          head_width_cases log2w_def)
        (simp add: uint8_bytes_def)
  next
    case 4
    then show ?thesis
      using byte_of_nat_mod [of "push_bit 5 mt OR 26"] uint32_bytes_mod [of n]
      by (simp add: pushInt_def Let_def hb pushUInt8_def pushUInt32BE_def write_head_def
          head_width_cases log2w_def)
        (simp add: uint8_bytes_def)
  next
    case 5
    then show ?thesis
      using byte_of_nat_mod [of "push_bit 5 mt OR 27"] uint64_bytes_mod [of n] assms(2)
      by (simp add: pushInt_def Let_def hb pushUInt8_def pushUInt32BE_def write_head_def
          head_width_cases log2w_def floor_div_SHIFT32_num mod_SHIFT32_num)
        (simp add: uint8_bytes_def)
  qed
qed

lemma head_width_minimal:
  "n < 2 ^ 64 \<Longrightarrow> holds_in (head_width n) n \<and>
     (holds_in 1 n \<longrightarrow> head_width n = 1) \<and>
     (holds_in 2 n \<longrightarrow> head_width n \<le> 2) \<and>
     (holds_in 4 n \<longrightarrow> head_width n \<le> 4)"
  by (simp add: head_width_def holds_in_def)

text \<open>
  C2 (amended). For every major type and every non-negative integer argument up to
  \<open>Number.MAX_SAFE_INTEGER = 2^53 - 1\<close>, \<open>_pushInt\<close> emits the head of the
  specification: the argument inline in the single head byte when it is below 24, and
  otherwise the head byte followed by the argument big-endian in the smallest of 1, 2, 4
  or 8 bytes that holds it.
\<close>

theorem pushInt_minimal_head:
  assumes "mt \<le> 7" and "n \<le> MAX_SAFE_INTEGER"
  shows "concatBuffers (stream (pushInt gen (num n) mt orig)) =
           concatBuffers (stream gen) @ write_head mt n
       \<and> length (write_head mt n) = (if n < 24 then 1 else 1 + head_width n)
       \<and> holds_in (head_width n) n
       \<and> (holds_in 1 n \<longrightarrow> head_width n = 1)
       \<and> (holds_in 2 n \<longrightarrow> head_width n \<le> 2)
       \<and> (holds_in 4 n \<longrightarrow> head_width n \<le> 4)"
proof -
  from assms(2) have "n < 2 ^ 64" by simp
  then have "holds_in (head_width n) n \<and>
     (holds_in 1 n \<longrightarrow> head_width n = 1) \<and>
     (holds_in 2 n \<longrightarrow> head_width n \<le> 2) \<and>
     (holds_in 4 n \<longrightarrow> head_width n \<le> 4)"
    by (rule head_width_minimal)
  moreover have "length (write_head mt n) = (if n < 24 then 1 else 1 + head_width n)"
    by (simp add: write_head_def big_endian_def)
  ultimately show ?thesis
    using pushInt_write_head [OF assms] by simp
qed

theorem pushInt_minimal_head_witness:
  "concatBuffers (stream (pushInt Encoder_default (num 1000000) MT_POS_INT None)) =
     [0x1a, 0x00, 0x0f, 0x42, 0x40]
   \<and> head_width 1000000 = 4"
  using pushInt_minimal_head [of MT_POS_INT 1000000 Encoder_default None]
  by (simp add: write_head_def head_width_cases log2w_def big_endian_def upt_rec
      Encoder_default_def concatBuffers_def)

text \<open>
  At \<open>n = 2^53\<close>, an unsigned integer below \<open>2^64\<close>, the encoder leaves the integer
  heads: \<open>_pushInt\<close> falls through to \<open>_pushFloat\<close> and emits the single-precision
  float \<open>fa 5a 00 00 00\<close>, not the head \<open>1b 00 20 00 00 00 00 00 00\<close>.
\<close>

theorem pushInt_above_safe_counterexample:
  "concatBuffers (stream (pushInt Encoder_default (num (2 ^ 53)) MT_POS_INT None)) =
     [0xfa, 0x5a, 0x00, 0x00, 0x00]
   \<and> write_head MT_POS_INT (2 ^ 53) = [0x1b, 0x00, 0x20, 0x00, 0x00, 0x00, 0x00, 0x00, 0x00]"
proof -
  have fr: "Math_fround (Fin (2 ^ 53)) = Fin (2 ^ 53)"
    unfolding Math_fround_def to_float32_2p53 by (simp add: ieee_decode_def pow2_def)
  have "concatBuffers (stream (pushFloat Encoder_default (Fin (2 ^ 53)))) =
      [0xfa, 0x5a, 0x00, 0x00, 0x00]"
    using to_float32_2p53 fr
    by (simp add: pushFloat_def FLOAT_eq strict_eq_def ord_key_def pushFloatBE_def pushUInt8_def
        float32_bytes_def uint32_bytes_def uint8_bytes_def Encoder_default_def
        concatBuffers_def push_def)
  moreover have "pushInt Encoder_default (num (2 ^ 53)) MT_POS_INT None =
      pushFloat Encoder_default (Fin (2 ^ 53))"
    by (simp add: pushInt_def num_le_def num_lt_def num_def ord_key_def)
  moreover have "write_head MT_POS_INT (2 ^ 53) = [0x1b, 0x00, 0x20, 0x00, 0x00, 0x00, 0x00, 0x00, 0x00]"
    by (simp add: write_head_def head_width_cases log2w_def big_endian_def upt_rec)
  ultimately show ?thesis by simp
qed

section \<open>Reading 64-bit arguments\<close>

lemma foldl_getUint:
  "foldl (\<lambda>acc b. acc * 256 + unat b) acc bs = acc * 256 ^ length bs + getUint bs"
proof (induction bs arbitrary: acc)
  case Nil
  then show ?case by (simp add: getUint_def)
next
  case (Cons b bs)
  have "foldl (\<lambda>acc b. acc * 256 + unat b) acc (b # bs) =
        foldl (\<lambda>acc b. acc * 256 + unat b) (acc * 256 + unat b) bs" by simp
  also have "\<dots> = (acc * 256 + unat b) * 256 ^ length bs + getUint bs" by (rule Cons.IH)
  also have "getUint (b # bs) = unat b * 256 ^ length bs + getUint bs"
    using Cons.IH [of "unat b"] by (simp add: getUint_def)
  ultimately show ?case by (simp add: algebra_simps)
qed

lemma getUint_Cons: "getUint (b # bs) = unat b * 256 ^ length bs + getUint bs"
  using foldl_getUint [of "unat b" bs] by (simp add: getUint_def)

lemma getUint_Nil [simp]: "getUint [] = 0"
  by (simp add: getUint_def)

lemma getUint_bound: "getUint bs < 256 ^ length bs"
proof (induction bs)
  case Nil
  then show ?case by simp
next
  case (Cons b bs)
  have "unat b < 256" using unsigned_less [of b, where ?'a = nat] by simp
  then have "unat b \<le> 255" by simp
  then have 1: "unat b * 256 ^ length bs \<le> 255 * 256 ^ length bs" by (rule mult_le_mono1)
  have "getUint (b # bs) = unat b * 256 ^ length bs + getUint bs" by (rule getUint_Cons)
  also have "\<dots> < 255 * 256 ^ length bs + 256 ^ length bs" using 1 Cons by linarith
  finally show ?case by simp
qed

lemma getUint_append: "getUint (a @ b) = getUint a * 256 ^ length b + getUint b"
  by (induction a) (simp_all add: getUint_Cons power_add algebra_simps)

text \<open>
  C4. For every eight bytes after a head with additional info 27, \<open>parseCBORint\<close>
  returns a native number exactly when the 64-bit big-endian value is at most
  \<open>2^53 - 1\<close>, and otherwise an arbitrary-precision integer (a bigint, or a \<open>BigNumber\<close>
  when \<open>bigInt\<close> is false) holding the same value; the test \<open>f > 0x1fffff\<close> on the high
  word fires exactly for the values above \<open>2^53 - 1\<close>.
\<close>

theorem parseCBORint_eight_bytes:
  assumes "length buf = 8"
  shows "parseCBORint NUMBYTES_EIGHT buf bigInt =
           Inr (if getUint buf \<le> MAX_SAFE_INTEGER then JNumber (num (getUint buf))
                else if bigInt then JBigInt (int (getUint buf))
                else JBigNumber 0 (BN_Finite (int (getUint buf)) 0))
       \<and> (MAX_SAFE_HIGH < getUint (take 4 buf)) = (MAX_SAFE_INTEGER < getUint buf)"
proof -
  define f where "f = getUint (take 4 buf)"
  define g where "g = getUint (drop 4 buf)"
  have "buf = take 4 buf @ drop 4 buf" by simp
  then have "getUint buf = getUint (take 4 buf) * 256 ^ length (drop 4 buf) + getUint (drop 4 buf)"
    by (metis getUint_append)
  then have v: "getUint buf = f * 2 ^ 32 + g" by (simp add: f_def g_def assms)
  have gb: "g < 2 ^ 32" using getUint_bound [of "drop 4 buf"] by (simp add: g_def assms)
  have cmp: "(MAX_SAFE_HIGH < f) = (MAX_SAFE_INTEGER < f * 2 ^ 32 + g)"
    using gb by auto
  have d4: "take 4 (drop 4 buf) = drop 4 buf" using assms by simp
  show ?thesis
    using cmp assms
    by (simp add: parseCBORint_def dv_getUint_def v f_def [symmetric] g_def [symmetric] d4 not_less)
qed

theorem parseCBORint_eight_bytes_witness:
  "parseCBORint NUMBYTES_EIGHT [0, 0x20, 0, 0, 0, 0, 0, 0] True = Inr (JBigInt 9007199254740992)
   \<and> parseCBORint NUMBYTES_EIGHT [0, 0x1f, 0xff, 0xff, 0xff, 0xff, 0xff, 0xff] True
       = Inr (JNumber (num 9007199254740991))"
  using parseCBORint_eight_bytes [of "[0, 0x20, 0, 0, 0, 0, 0, 0]" True]
    parseCBORint_eight_bytes [of "[0, 0x1f, 0xff, 0xff, 0xff, 0xff, 0xff, 0xff]" True]
  by (simp add: getUint_Cons)

section \<open>The BREAK item\<close>

text \<open>
  C5. \<open>Simple.decode\<close> receives \<open>-1\<close> for the BREAK item (major type 7, additional info
  31). It yields the BREAK sentinel when the item has a parent and the parent is of
  indefinite length, and throws an error with the message \<open>Invalid BREAK\<close> in every other
  position: no parent, or a parent of definite length.
\<close>

theorem Simple_decode_BREAK:
  "Simple_decode (Fin (- 1)) has_parent parent_indefinite =
     (if has_parent \<and> parent_indefinite then Inr (JSymbol SYMS_BREAK)
      else Inl (Error ''Invalid BREAK''))"
  by (simp add: Simple_decode_def strict_eq_def ord_key_def num_def)

theorem Simple_decode_BREAK_witness:
  "Simple_decode (Fin (- 1)) True True = Inr (JSymbol SYMS_BREAK)
   \<and> Simple_decode (Fin (- 1)) True False = Inl (Error ''Invalid BREAK'')
   \<and> Simple_decode (Fin (- 1)) False False = Inl (Error ''Invalid BREAK'')"
  using Simple_decode_BREAK [of True True] Simple_decode_BREAK [of True False]
    Simple_decode_BREAK [of False False]
  by simp

section \<open>Interpreters that throw\<close>

text \<open>
  C8 (amended). Whenever the interpreter \<open>convert\<close> selects for a tag, the caller's or the
  class's own, throws during conversion, \<open>convert\<close> does not throw: it returns the tagged
  item itself, tag and value unchanged, with \<open>err\<close> set to the message of the error (to
  the error itself when the message is empty). An interpreter the caller installs is
  isolated like any other.
\<close>

theorem Tagged_convert_isolates:
  assumes "(case converters tag of Some f \<Rightarrow> Some f | None \<Rightarrow> statics tag) = Some f"
    and "f (JTagged i tag v err) v = Inl e"
  shows "Tagged_convert converters statics (JTagged i tag v err) =
           Inr (JTagged i tag v
                 (Some (if message_of e \<noteq> [] then ErrMessage (message_of e) else ErrObject e)))"
  using assms by (simp add: Tagged_convert_def)

theorem Tagged_convert_isolates_witness:
  "Tagged_convert (\<lambda>t. None) class_statics (JTagged 0 33 (JString [0x61]) None) =
     Inr (JTagged 0 33 (JString [0x61]) (Some (ErrMessage ''Invalid base64url length'')))"
  using Tagged_convert_isolates [where converters = "\<lambda>t. None" and statics = class_statics
      and tag = 33 and f = tag_33 and i = 0 and v = "JString [0x61]" and err = None
      and e = "Error ''Invalid base64url length''"]
  by (simp add: class_statics_def tag_33_def is_alnum_def char_in_def message_of_def)

text \<open>
  A converter installed by the caller that throws on every value: \<open>convert\<close> returns the
  tagged item with \<open>err\<close> set; the error does not reach the caller.
\<close>

theorem Tagged_convert_strict_counterexample:
  "Tagged_convert strict_converters class_statics (JTagged 0 99 JNull None) =
     Inr (JTagged 0 99 JNull (Some (ErrMessage ''strict'')))"
  by (simp add: Tagged_convert_def strict_converters_def strict_interpreter_def message_of_def)

section \<open>Arbitrary-precision integers\<close>

lemma hex_digit_hex_char: "d < 16 \<Longrightarrow> hex_digit (hex_char d) = Some d"
proof -
  assume "d < 16"
  then have "d = 0 \<or> d = 1 \<or> d = 2 \<or> d = 3 \<or> d = 4 \<or> d = 5 \<or> d = 6 \<or> d = 7
    \<or> d = 8 \<or> d = 9 \<or> d = 10 \<or> d = 11 \<or> d = 12 \<or> d = 13 \<or> d = 14 \<or> d = 15"
    by presburger
  then show ?thesis
    by (elim disjE) (simp_all add: hex_digit_def hex_char_def)
qed

lemma hex_decode_pair:
  "a < 16 \<Longrightarrow> b < 16 \<Longrightarrow> hex_decode (hex_char a # hex_char b # s) = of_nat (16 * a + b) # hex_decode s"
  by (simp add: hex_digit_hex_char)

definition all_hex :: "string \<Rightarrow> bool" where
  "all_hex s = list_all (\<lambda>c. hex_digit c \<noteq> None) s"

lemma hex_decode_append:
  "even (length t) \<Longrightarrow> all_hex t \<Longrightarrow> hex_decode (t @ u) = hex_decode t @ hex_decode u"
  by (induction t rule: hex_decode.induct) (auto simp: all_hex_def)

lemma toString16_step:
  "16 \<le> n \<Longrightarrow> toString16 n = toString16 (n div 16) @ [hex_char (n mod 16)]"
  by (subst toString16.simps) simp

lemma toString16_small: "n < 16 \<Longrightarrow> toString16 n = [hex_char n]"
  by (subst toString16.simps) simp

lemma all_hex_toString16: "all_hex (toString16 n)"
proof (induction n rule: toString16.induct)
  case (1 n)
  show ?case
  proof (cases "n < 16")
    case True
    then show ?thesis by (simp add: toString16_small all_hex_def hex_digit_hex_char)
  next
    case False
    then have "all_hex (toString16 (n div 16))" by (rule 1)
    moreover have "hex_digit (hex_char (n mod 16)) = Some (n mod 16)" by (rule hex_digit_hex_char) simp
    ultimately show ?thesis using False by (simp add: toString16_step all_hex_def)
  qed
qed

lemma pad_hex_even: "even (length (pad_hex s))"
  by (simp add: pad_hex_def)

lemma all_hex_pad: "all_hex s \<Longrightarrow> all_hex (pad_hex s)"
  by (simp add: pad_hex_def all_hex_def hex_digit_def)

lemma pad_hex_append2: "pad_hex (s @ [a, b]) = pad_hex s @ [a, b]"
  by (simp add: pad_hex_def)

lemma hex_bytes: "hex_decode (pad_hex (toString16 n)) = unsigned_be_bytes n"
proof (induction n rule: unsigned_be_bytes.induct)
  case (1 n)
  consider "n < 16" | "16 \<le> n" "n < 256" | "256 \<le> n" by linarith
  then show ?case
  proof cases
    case 1
    then have "hex_decode (pad_hex (toString16 n)) = hex_decode (hex_char 0 # hex_char n # [])"
      by (simp add: toString16_small pad_hex_def hex_char_def)
    also have "\<dots> = [of_nat n]" using 1 by (simp only: hex_decode_pair) simp
    finally show ?thesis using 1 by (simp add: unsigned_be_bytes.simps [of n])
  next
    case 2
    then have d: "n div 16 < 16" by simp
    have "toString16 n = [hex_char (n div 16), hex_char (n mod 16)]"
      using 2 d by (simp add: toString16_step toString16_small)
    then have "hex_decode (pad_hex (toString16 n)) = hex_decode (hex_char (n div 16) # hex_char (n mod 16) # [])"
      by (simp add: pad_hex_def)
    also have "\<dots> = [of_nat (16 * (n div 16) + n mod 16)]"
      using d by (simp only: hex_decode_pair) simp
    finally show ?thesis using 2 by (simp add: unsigned_be_bytes.simps [of n])
  next
    case 3
    then have a: "16 \<le> n" and b: "16 \<le> n div 16" by simp_all
    have dd: "n div 16 div 16 = n div 256" by (simp add: div_mult2_eq [symmetric])
    have ts: "toString16 n = toString16 (n div 256) @ [hex_char (n div 16 mod 16), hex_char (n mod 16)]"
      using a b by (simp add: toString16_step [of n] toString16_step [of "n div 16"] dd)
    have ih: "hex_decode (pad_hex (toString16 (n div 256))) = unsigned_be_bytes (n div 256)"
      using 3 by (intro 1) simp
    have "hex_decode (pad_hex (toString16 n)) =
        hex_decode (pad_hex (toString16 (n div 256)) @ [hex_char (n div 16 mod 16), hex_char (n mod 16)])"
      by (simp add: ts pad_hex_append2)
    also have "\<dots> = hex_decode (pad_hex (toString16 (n div 256))) @
        hex_decode [hex_char (n div 16 mod 16), hex_char (n mod 16)]"
      by (rule hex_decode_append) (simp_all add: pad_hex_even all_hex_pad all_hex_toString16)
    also have "hex_decode [hex_char (n div 16 mod 16), hex_char (n mod 16)] =
        [of_nat (16 * (n div 16 mod 16) + n mod 16)]"
      by (simp only: hex_decode_pair) (simp add: hex_decode_pair)
    also have "16 * (n div 16 mod 16) + n mod 16 = n mod 256"
      using mod_mult2_eq [of n 16 16] by simp
    finally show ?thesis
      using 3 byte_of_nat_mod [of n] by (simp add: ih unsigned_be_bytes.simps [of n])
  qed
qed

lemma out_pushUInt8_num:
  "concatBuffers (stream (pushUInt8 gen (num k))) = concatBuffers (stream gen) @ [of_nat k]"
  using byte_of_nat_mod [of k] by (simp add: pushUInt8_def uint8_bytes_def)

lemma out_pushUInt32BE_num:
  "concatBuffers (stream (pushUInt32BE gen (num k))) =
   concatBuffers (stream gen) @ uint32_bytes (k mod 2 ^ 32)"
  by (simp add: pushUInt32BE_def)

lemma Number_of_int [simp]: "Number_of (int n) = num n"
  by (simp add: Number_of_def)

lemma out_pushTag:
  "tag \<le> MAX_SAFE_INTEGER \<Longrightarrow>
   concatBuffers (stream (pushTag gen tag)) = concatBuffers (stream gen) @ write_head MT_TAG tag"
  unfolding pushTag_def by (rule pushInt_write_head) simp_all

lemma out_pushByteString:
  "length buf \<le> MAX_SAFE_INTEGER \<Longrightarrow>
   concatBuffers (stream (pushByteString gen buf)) =
   concatBuffers (stream gen) @ write_head MT_BYTE_STRING (length buf) @ buf"
  by (simp add: pushByteString_def pushInt_write_head)

lemma collapse_branch:
  assumes "mt \<le> 7"
  shows "concatBuffers (stream
          (if int mag \<le> 0xffffffff then pushInt gen (Number_of (int mag)) mt None
           else pushUInt32BE
                  (pushUInt32BE
                     (pushUInt8 gen (num_or (num_shl (num mt) (num 5)) (num NUMBYTES_EIGHT)))
                     (Number_of (int mag div BI_SHIFT32)))
                  (Number_of (int mag mod BI_SHIFT32))))
    = concatBuffers (stream gen) @
        (if mag \<le> 2 ^ 32 - 1 then write_head mt mag
         else of_nat (push_bit 5 mt OR 27) # big_endian 8 mag)"
proof (cases "mag \<le> 2 ^ 32 - 1")
  case True
  then have "mag \<le> MAX_SAFE_INTEGER" by simp
  then show ?thesis using True assms by (simp add: pushInt_write_head)
next
  case False
  have d: "int mag div BI_SHIFT32 = int (mag div 2 ^ 32)" "int mag mod BI_SHIFT32 = int (mag mod 2 ^ 32)"
    by (simp_all add: zdiv_int zmod_int)
  show ?thesis
    using False uint64_bytes_mod [of mag]
    by (simp add: d out_pushUInt32BE_num head_byte_num [OF assms] out_pushUInt8_num)
qed

text \<open>
  What \<open>_pushJSBigint\<close> does on every bigint \<open>v\<close>: a negative \<open>v\<close> takes tag 3, major
  type 1 and the magnitude \<open>-v - 1\<close>, any other \<open>v\<close> tag 2, major type 0 and the magnitude
  \<open>v\<close>. With \<open>collapseBigIntegers\<close> and a magnitude of at most \<open>2^64 - 1\<close>, the output is
  the ordinary minimal head of the magnitude when it is at most \<open>2^32 - 1\<close>, and the byte
  \<open>(mt<<5)|27\<close> with exactly eight big-endian bytes otherwise. In all remaining cases the
  output is the head of the tag, then a byte string holding the big-endian bytes of the
  magnitude, padded to an even number of hexadecimal digits. \<open>_pushBigint\<close> does the same
  on every integer \<open>BigNumber\<close> but negative zero. (The hypothesis keeps the length of the
  byte string a safe integer, as the length of every buffer of the host is.)
\<close>

lemma pushJSBigint_policy:
  assumes "length (unsigned_be_bytes (nat (if v < 0 then - v - 1 else v))) \<le> MAX_SAFE_INTEGER"
  shows "concatBuffers (stream (pushJSBigint gen v)) = concatBuffers (stream gen) @
     (let mt = (if v < 0 then MT_NEG_INT else MT_POS_INT);
          tag = (if v < 0 then TAG_NEG_BIGINT else TAG_POS_BIGINT);
          mag = nat (if v < 0 then - v - 1 else v)
      in if collapseBigIntegers gen \<and> mag \<le> 2 ^ 64 - 1 then
           (if mag \<le> 2 ^ 32 - 1 then write_head mt mag
            else of_nat (push_bit 5 mt OR 27) # big_endian 8 mag)
         else write_head MT_TAG tag @ write_head MT_BYTE_STRING (length (unsigned_be_bytes mag))
              @ unsigned_be_bytes mag)
     \<and> pushBigint gen (BN_int v) = pushJSBigint gen v"
proof -
  define mag where "mag = nat (if v < 0 then - v - 1 else v)"
  define mt :: nat where "mt = (if v < 0 then MT_NEG_INT else MT_POS_INT)"
  define tag :: nat where "tag = (if v < 0 then TAG_NEG_BIGINT else TAG_POS_BIGINT)"
  have obj: "(if v < 0 then - v + (- 1) else v) = int mag" by (simp add: mag_def)
  have mt7: "mt \<le> 7" by (simp add: mt_def)
  have tg: "tag \<le> MAX_SAFE_INTEGER" by (simp add: tag_def)
  have len: "length (unsigned_be_bytes mag) \<le> MAX_SAFE_INTEGER" using assms by (simp add: mag_def)
  have unfold: "pushJSBigint gen v =
     (if collapseBigIntegers gen \<and> int mag \<le> BI_MAXINT64 then
          (if int mag \<le> 0xffffffff then pushInt gen (Number_of (int mag)) mt None
           else pushUInt32BE
                  (pushUInt32BE
                     (pushUInt8 gen (num_or (num_shl (num mt) (num 5)) (num NUMBYTES_EIGHT)))
                     (Number_of (int mag div BI_SHIFT32)))
                  (Number_of (int mag mod BI_SHIFT32)))
        else pushByteString (pushTag gen tag) (hex_decode (pad_hex (toString16 mag))))"
    by (simp add: pushJSBigint_def mag_def mt_def tag_def Let_def)
  have bytes: "concatBuffers (stream (pushByteString (pushTag gen tag) (unsigned_be_bytes mag))) =
      concatBuffers (stream gen) @ write_head MT_TAG tag
        @ write_head MT_BYTE_STRING (length (unsigned_be_bytes mag)) @ unsigned_be_bytes mag"
    by (simp add: out_pushByteString [OF len] out_pushTag [OF tg])
  have c64: "(int mag \<le> BI_MAXINT64) = (mag \<le> 2 ^ 64 - 1)" by auto
  have main: "concatBuffers (stream (pushJSBigint gen v)) = concatBuffers (stream gen) @
      (if collapseBigIntegers gen \<and> mag \<le> 2 ^ 64 - 1 then
           (if mag \<le> 2 ^ 32 - 1 then write_head mt mag
            else of_nat (push_bit 5 mt OR 27) # big_endian 8 mag)
         else write_head MT_TAG tag @ write_head MT_BYTE_STRING (length (unsigned_be_bytes mag))
              @ unsigned_be_bytes mag)"
  proof (cases "collapseBigIntegers gen \<and> mag \<le> 2 ^ 64 - 1")
    case True
    with c64 have pg: "collapseBigIntegers gen \<and> int mag \<le> BI_MAXINT64" by simp
    have "pushJSBigint gen v =
          (if int mag \<le> 0xffffffff then pushInt gen (Number_of (int mag)) mt None
           else pushUInt32BE
                  (pushUInt32BE
                     (pushUInt8 gen (num_or (num_shl (num mt) (num 5)) (num NUMBYTES_EIGHT)))
                     (Number_of (int mag div BI_SHIFT32)))
                  (Number_of (int mag mod BI_SHIFT32)))"
      unfolding unfold by (simp only: pg if_True simp_thms)
    then have "concatBuffers (stream (pushJSBigint gen v)) = concatBuffers (stream gen) @
        (if mag \<le> 2 ^ 32 - 1 then write_head mt mag
         else of_nat (push_bit 5 mt OR 27) # big_endian 8 mag)"
      by (simp only: collapse_branch [OF mt7])
    with True show ?thesis by (simp only: if_True simp_thms)
  next
    case False
    with c64 have ng: "\<not> (collapseBigIntegers gen \<and> int mag \<le> BI_MAXINT64)" by simp
    have "pushJSBigint gen v =
        pushByteString (pushTag gen tag) (hex_decode (pad_hex (toString16 mag)))"
      unfolding unfold by (simp only: ng if_False simp_thms)
    then have "concatBuffers (stream (pushJSBigint gen v)) =
      concatBuffers (stream gen) @ write_head MT_TAG tag
        @ write_head MT_BYTE_STRING (length (unsigned_be_bytes mag)) @ unsigned_be_bytes mag"
      by (simp only: hex_bytes bytes)
    with False show ?thesis by (simp only: if_False simp_thms)
  qed
  have same: "pushBigint gen (BN_int v) = pushJSBigint gen v"
    by (simp add: pushBigint_def pushJSBigint_def BN_isNegative_def BN_value_def
        BN_toString16_def)
  from main same show ?thesis
    by (simp add: mag_def mt_def tag_def Let_def)
qed

lemma pushJSBigint_policy_example:
  "concatBuffers (stream (pushJSBigint Encoder_default (- 18446744073709551617))) =
     [0xc3, 0x49, 0x01, 0, 0, 0, 0, 0, 0, 0, 0]
   \<and> concatBuffers (stream (pushJSBigint (Encoder_default\<lparr>collapseBigIntegers := True\<rparr>) 4294967296)) =
     [0x1b, 0, 0, 0, 1, 0, 0, 0, 0]"
proof -
  have ub: "unsigned_be_bytes 18446744073709551616 = [1, 0, 0, 0, 0, 0, 0, 0, 0]"
    by (simp add: unsigned_be_bytes.simps)
  have l9: "length [1, 0, 0, 0, 0, 0, 0, 0, 0 :: byte] = 9"
    by simp
  have wh: "write_head MT_BYTE_STRING (length (unsigned_be_bytes 18446744073709551616)) = [0x49]"
    unfolding ub l9 by (simp add: write_head_def)
  have ub2: "unsigned_be_bytes 4294967296 = [1, 0, 0, 0, 0]"
    by (simp add: unsigned_be_bytes.simps)
  show ?thesis
    using pushJSBigint_policy [of "- 18446744073709551617" Encoder_default]
      pushJSBigint_policy [of 4294967296 "Encoder_default\<lparr>collapseBigIntegers := True\<rparr>"]
    by (simp add: wh)
      (simp add: ub ub2 write_head_def head_width_cases log2w_def big_endian_def
        upt_rec Encoder_default_def concatBuffers_def)
qed

text \<open>
  Claim C7. The claim says that an arbitrary-precision integer that is not below 0 takes
  tag 2 and its own magnitude. On the \<open>BigNumber\<close> negative zero \<open>_pushBigint\<close> does
  otherwise: \<open>isNegative()\<close> holds of it, so it takes tag 3 and \<open>obj\<close> becomes \<open>-1\<close>, whose
  hexadecimal string \<open>-1\<close> decodes to no byte at all. The output is \<open>c3 40\<close>, which reads
  back as \<open>-1\<close>, and with \<open>collapseBigIntegers\<close> it is the single byte \<open>ff\<close>. The
  bigint 0, which \<open>_pushJSBigint\<close> tests with \<open>obj < 0\<close>, gives \<open>c2 41 00\<close> as the claim
  says.
\<close>

theorem pushBigint_negative_zero:
  "map_sum id fst (encode [JBigNumber 1 BN_NegZero]) = Inr [0xc3, 0x40]
   \<and> concatBuffers (stream (pushBigint Encoder_default BN_minus_zero)) = [0xc3, 0x40]
   \<and> concatBuffers (stream (pushBigint (Encoder_default\<lparr>collapseBigIntegers := True\<rparr>)
         BN_minus_zero)) = [0xff]
   \<and> concatBuffers (stream (pushJSBigint Encoder_default 0)) = [0xc2, 0x41, 0x00]"
proof -
  have tag3: "concatBuffers (stream (pushTag g 3)) = concatBuffers (stream g) @ [0xc3]" for g
    using out_pushTag [of 3 g] by (simp add: write_head_def)
  have empty: "concatBuffers (stream (pushByteString g [])) = concatBuffers (stream g) @ [0x40]"
    for g
    using out_pushByteString [of "[]" g] by (simp add: write_head_def)
  have a: "concatBuffers (stream (pushBigint g BN_minus_zero))
           = concatBuffers (stream g) @ [0xc3, 0x40]" if "\<not> collapseBigIntegers g" for g
    using that
    by (simp add: pushBigint_def BN_isNegative_def BN_value_def BN_toString16_def pad_hex_def
        toString16_small hex_char_def hex_digit_def tag3 empty)
  have t1: "to_integer (Fin (- 1)) = - 1"
    using ceiling_of_int [of "- 1", where ?'a = rat] by (simp add: to_integer_def trunc_def)
  have t3: "js_or 32 (- 1) = - 1"
    by (simp add: js_or_def int32_def)
  have "num_shl (num 1) (num 5) = num 32"
    using num_shl_5 [of 1] by (simp add: push_bit_eq_mult)
  then have t4: "num_or (num_shl (num 1) (num 5)) (Fin (- 1)) = Fin (- 1)"
    by (simp add: num_or_def t1 t3 of_integer_def)
  then have t4': "num_or (num_shl (num (Suc 0)) (num 5)) (Fin (- 1)) = Fin (- 1)"
    by simp
  have t5: "to_uint 8 (Fin (- 1)) = 255"
    by (simp add: to_uint_def t1)
  have lt: "num_lt (Fin (- 1)) (num 24)"
    by (simp add: num_lt_def ord_key_def num_def)
  have b: "concatBuffers (stream (pushBigint (Encoder_default\<lparr>collapseBigIntegers := True\<rparr>)
         BN_minus_zero)) = [0xff]"
    by (simp add: pushBigint_def BN_isNegative_def BN_value_def Number_of_def of_integer_def
        pushInt_def Let_def lt t4' t5 pushUInt8_def uint8_bytes_def)
      (simp add: Encoder_default_def concatBuffers_def)
  have c: "concatBuffers (stream (pushJSBigint Encoder_default 0)) = [0xc2, 0x41, 0x00]"
    using pushJSBigint_policy [of 0 Encoder_default]
    by (simp add: unsigned_be_bytes.simps write_head_def)
      (simp add: Encoder_default_def concatBuffers_def)
  have d: "map_sum id fst (encode [JBigNumber 1 BN_NegZero]) = Inr [0xc3, 0x40]"
    by (simp add: encode_def new_Encoder_def default_options_def encodeAll_def enter_object_def
        pushBigNumber_def flush_def a)
      (simp add: concatBuffers_def)
  from a [of Encoder_default] b c d show ?thesis
    by (simp add: Encoder_default_def concatBuffers_def)
qed

section \<open>Floating-point numbers\<close>

lemma not_int_fraction:
  fixes a b :: int
  assumes "0 < b" "a mod b \<noteq> 0"
  shows "(of_int a / of_int b :: rat) \<notin> \<int>"
proof
  assume "(of_int a / of_int b :: rat) \<in> \<int>"
  then obtain z where z: "(of_int a / of_int b :: rat) = of_int z" by (rule Ints_cases)
  from assms(1) have "(of_int b :: rat) \<noteq> 0" by simp
  with z have "(of_int a :: rat) = of_int (z * b)" by (simp add: field_simps)
  then have "a = z * b" by (simp only: of_int_eq_iff)
  with assms(2) show False by simp
qed

lemma BUF_consts:
  "BUF_NAN = [0xf9, 0x7e, 0x00]" "BUF_INF_NEG = [0xf9, 0xfc, 0x00]"
  "BUF_INF_POS = [0xf9, 0x7c, 0x00]" "BUF_NEG_ZERO = [0xf9, 0x80, 0x00]"
  by (simp_all add: BUF_NAN_def BUF_INF_NEG_def BUF_INF_POS_def BUF_NEG_ZERO_def hex_digit_def)

lemma strict_eq_Fin: "r \<noteq> 0 \<Longrightarrow> strict_eq a (Fin r) = (a = Fin r)"
  by (cases a) (auto simp add: strict_eq_def ord_key_def)

lemma Math_round_not_integer: "r \<notin> \<int> \<Longrightarrow> \<not> strict_eq (Math_round (Fin r)) (Fin r)"
proof -
  assume a: "r \<notin> \<int>"
  then have r0: "r \<noteq> 0" by auto
  have "of_int n \<noteq> r" for n using a by auto
  with r0 show ?thesis
    by (auto simp add: Math_round_def strict_eq_Fin Let_def)
qed

lemma pushFloat_plain:
  "\<not> canonical gen \<Longrightarrow> r \<noteq> 0 \<Longrightarrow>
   concatBuffers (stream (pushFloat gen (Fin r))) = concatBuffers (stream gen) @
     (if Math_fround (Fin r) = Fin r then 0xfa # float32_bytes (Fin r)
      else 0xfb # float64_bytes (Fin r))"
  by (simp add: pushFloat_def strict_eq_Fin pushFloatBE_def pushDoubleBE_def FLOAT_eq DOUBLE_eq
      pushUInt8_def uint8_bytes_def)

text \<open>
  Claim C3. Encoding a number follows the float policy: NaN gives the three bytes
  \<open>f9 7e 00\<close>, positive infinity \<open>f9 7c 00\<close>, negative infinity \<open>f9 fc 00\<close>, negative
  zero \<open>f9 80 00\<close> (the sign bit is kept), and every other finite number that is not an
  integer gives the head \<open>fa\<close> and its four single-precision bytes exactly when rounding
  it to single precision gives the number back, and the head \<open>fb\<close> and its eight
  double-precision bytes otherwise. (The constructor refuses the canonical option, so an
  encoder never has it set.)
\<close>

theorem pushNumber_float_policy:
  "concatBuffers (stream (pushNumber gen NaN)) = concatBuffers (stream gen) @ [0xf9, 0x7e, 0x00]
   \<and> concatBuffers (stream (pushNumber gen PosInf)) = concatBuffers (stream gen) @ [0xf9, 0x7c, 0x00]
   \<and> concatBuffers (stream (pushNumber gen NegInf)) = concatBuffers (stream gen) @ [0xf9, 0xfc, 0x00]
   \<and> concatBuffers (stream (pushNumber gen NegZero)) = concatBuffers (stream gen) @ [0xf9, 0x80, 0x00]
   \<and> (r \<notin> \<int> \<and> \<not> canonical gen \<longrightarrow>
        concatBuffers (stream (pushNumber gen (Fin r))) = concatBuffers (stream gen) @
          (if Math_fround (Fin r) = Fin r then 0xfa # float32_bytes (Fin r)
           else 0xfb # float64_bytes (Fin r)))
   \<and> length (float32_bytes x) = 4 \<and> length (float64_bytes x) = 8"
proof -
  have 1: "concatBuffers (stream (pushNumber gen NaN)) = concatBuffers (stream gen) @ [0xf9, 0x7e, 0x00]"
    by (simp add: pushNumber_def isNaN_def pushNaN_def BUF_consts)
  have 2: "concatBuffers (stream (pushNumber gen PosInf)) = concatBuffers (stream gen) @ [0xf9, 0x7c, 0x00]"
    by (simp add: pushNumber_def isNaN_def isFinite_def pushInfinity_def BUF_consts num_lt_def
        ord_key_def num_def)
  have 3: "concatBuffers (stream (pushNumber gen NegInf)) = concatBuffers (stream gen) @ [0xf9, 0xfc, 0x00]"
    by (simp add: pushNumber_def isNaN_def isFinite_def pushInfinity_def BUF_consts num_lt_def
        ord_key_def num_def)
  have 4: "concatBuffers (stream (pushNumber gen NegZero)) = concatBuffers (stream gen) @ [0xf9, 0x80, 0x00]"
    by (simp add: pushNumber_def isNaN_def isFinite_def Math_round_def strict_eq_def ord_key_def
        pushIntNum_def is_neg_zero_def BUF_consts)
  have 5: "concatBuffers (stream (pushNumber gen (Fin r))) = concatBuffers (stream gen) @
          (if Math_fround (Fin r) = Fin r then 0xfa # float32_bytes (Fin r)
           else 0xfb # float64_bytes (Fin r))" if "r \<notin> \<int>" "\<not> canonical gen"
  proof -
    from that(1) have r0: "r \<noteq> 0" by auto
    have "pushNumber gen (Fin r) = pushFloat gen (Fin r)"
      using Math_round_not_integer [OF that(1)]
      by (simp add: pushNumber_def isNaN_def isFinite_def)
    then show ?thesis using pushFloat_plain [OF that(2) r0] by simp
  qed
  have 6: "length (float32_bytes x) = 4 \<and> length (float64_bytes x) = 8"
    by (simp add: float32_bytes_def float64_bytes_def uint32_bytes_def)
  from 1 2 3 4 5 6 show ?thesis by blast
qed

lemma to_float32_3_2: "to_float32 (Fin (3 / 2)) = 0x3fc00000"
proof -
  have rd: "round_half_even (\<bar>3 / 2\<bar> / pow2 (max 0 (2 - 2 ^ (8 - 1)) - int 23)) = 12582912"
    using rhe_exact [of 12582912] by (simp add: pow2_def)
  show ?thesis
    unfolding to_float32_def
    using ieee_encode_Fin [where r = "3 / 2" and e = 0 and ebits = 8 and mbits = 23, OF _ _ _ rd]
    by (simp add: pow2_def)
qed

lemma to_float32_1_1:
  "to_float32 (Fin (2476979795053773 / 2251799813685248)) = 0x3f8ccccd"
proof -
  have rd: "round_half_even (\<bar>2476979795053773 / 2251799813685248\<bar>
      / pow2 (max 0 (2 - 2 ^ (8 - 1)) - int 23)) = 9227469"
    by (rule rhe_up) (simp_all add: pow2_def)
  show ?thesis
    unfolding to_float32_def
    using ieee_encode_Fin [where r = "2476979795053773 / 2251799813685248" and e = 0 and ebits = 8
        and mbits = 23, OF _ _ _ rd]
    by (simp add: pow2_def)
qed

lemma to_float64_1_1:
  "to_float64 (Fin (2476979795053773 / 2251799813685248)) = 0x3ff199999999999a"
proof -
  have rd: "round_half_even (\<bar>2476979795053773 / 2251799813685248\<bar>
      / pow2 (max 0 (2 - 2 ^ (11 - 1)) - int 52)) = 4953959590107546"
    using rhe_exact [of 4953959590107546] by (simp add: pow2_def)
  show ?thesis
    unfolding to_float64_def
    using ieee_encode_Fin [where r = "2476979795053773 / 2251799813685248" and e = 0 and ebits = 11
        and mbits = 52, OF _ _ _ rd]
    by (simp add: pow2_def)
qed

theorem pushNumber_float_policy_witness:
  "concatBuffers (stream (pushNumber Encoder_default (Fin (3 / 2)))) = [0xfa, 0x3f, 0xc0, 0x00, 0x00]
   \<and> concatBuffers (stream (pushNumber Encoder_default (Fin (2476979795053773 / 2251799813685248))))
       = [0xfb, 0x3f, 0xf1, 0x99, 0x99, 0x99, 0x99, 0x99, 0x9a]"
proof -
  have i1: "(3 / 2 :: rat) \<notin> \<int>"
    using not_int_fraction [of 2 3] by simp
  have i2: "(2476979795053773 / 2251799813685248 :: rat) \<notin> \<int>"
    using not_int_fraction [of 2251799813685248 2476979795053773] by simp
  have f1: "Math_fround (Fin (3 / 2)) = Fin (3 / 2)"
    unfolding Math_fround_def to_float32_3_2 by (simp add: ieee_decode_def pow2_def)
  have f2: "Math_fround (Fin (2476979795053773 / 2251799813685248)) \<noteq> Fin (2476979795053773 / 2251799813685248)"
    unfolding Math_fround_def to_float32_1_1 by (simp add: ieee_decode_def pow2_def)
  show ?thesis
    using pushNumber_float_policy [of Encoder_default "3 / 2"]
      pushNumber_float_policy [of Encoder_default "2476979795053773 / 2251799813685248"]
      i1 i2 f1 f2 to_float32_3_2 to_float64_1_1
    by (simp add: Encoder_default_def concatBuffers_def float32_bytes_def float64_bytes_def
        uint32_bytes_def)
qed

lemma to_float32_above_one: "to_float32 (Fin (1 + 1 / 2 ^ 52)) = 0x3f800000"
proof -
  have rd: "round_half_even (\<bar>1 + 1 / 2 ^ 52\<bar> / pow2 (max 0 (2 - 2 ^ (8 - 1)) - int 23)) = 8388608"
    by (rule rhe_down) (simp_all add: pow2_def)
  show ?thesis
    unfolding to_float32_def
    using ieee_encode_Fin [where r = "1 + 1 / 2 ^ 52" and e = 0 and ebits = 8 and mbits = 23, OF _ _ _ rd]
    by (simp add: pow2_def)
qed

lemma to_float64_above_one: "to_float64 (Fin (1 + 1 / 2 ^ 52)) = 0x3ff0000000000001"
proof -
  have rd: "round_half_even (\<bar>1 + 1 / 2 ^ 52\<bar> / pow2 (max 0 (2 - 2 ^ (11 - 1)) - int 52)) = 4503599627370497"
    using rhe_exact [of 4503599627370497] by (simp add: pow2_def)
  show ?thesis
    unfolding to_float64_def
    using ieee_encode_Fin [where r = "1 + 1 / 2 ^ 52" and e = 0 and ebits = 11 and mbits = 52, OF _ _ _ rd]
    by (simp add: pow2_def)
qed

text \<open>
  Claim C10. The claim says that whenever \<open>writeHalf\<close> reports that it wrote, \<open>parseHalf\<close>
  of the two bytes is the number given. At the double \<open>1 + 2^-52\<close> the code does
  otherwise: \<open>writeHalf\<close> tests the bits of the number rounded to single precision,
  which are those of 1, writes \<open>3c 00\<close> and returns true, and \<open>parseHalf\<close> reads 1.
\<close>

theorem writeHalf_not_invertible:
  "is_float64 (Fin (1 + 1 / 2 ^ 52))
   \<and> writeHalf [0, 0] (Fin (1 + 1 / 2 ^ 52)) = Inr (True, [0x3c, 0x00])
   \<and> parseHalf [0x3c, 0x00] = Fin 1
   \<and> parseHalf [0x3c, 0x00] \<noteq> Fin (1 + 1 / 2 ^ 52)"
proof -
  have a: "is_float64 (Fin (1 + 1 / 2 ^ 52))"
    unfolding is_float64_def to_float64_above_one by (simp add: ieee_decode_def pow2_def)
  have b: "writeHalf [0, 0] (Fin (1 + 1 / 2 ^ 52)) = Inr (True, [0x3c, 0x00])"
    unfolding writeHalf_def to_float32_above_one
    by (simp add: js_and_def js_sar_def js_shl_def int32_def setUint16_def uint16_bytes_def
        signed_take_bit_eq_take_bit_minus take_bit_eq_mod bit_iff_odd drop_bit_eq_div
        push_bit_eq_mult and_int_unfold)
  have c: "parseHalf [0x3c, 0x00] = Fin 1"
    by (simp add: parseHalf_def byte_at_def js_and_def js_sar_def js_shl_def js_or_def int32_def
        signed_take_bit_eq_take_bit_minus take_bit_eq_mod bit_iff_odd drop_bit_eq_div
        push_bit_eq_mult and_int_unfold or_int_unfold num_mult_def of_integer_def pow2_def
        is_inf_def is_neg_def magnitude_def Let_def)
  from a b c show ?thesis by simp
qed

section \<open>Chunks of an indefinite-length string\<close>

lemma out_pushString:
  "length (utf8_encode s) \<le> MAX_SAFE_INTEGER \<Longrightarrow>
   concatBuffers (stream (pushString gen s)) =
   concatBuffers (stream gen) @ write_head MT_UTF8_STRING (length (utf8_encode s)) @ utf8_encode s"
  by (simp add: pushString_def pushInt_write_head Let_def)

lemma utf8_lone_high: "utf8_encode [0xD83D] = [0xef, 0xbf, 0xbd]"
  by (simp add: is_high_surrogate_def utf8_bytes_def)

lemma utf8_lone_low: "utf8_encode [0xDE00] = [0xef, 0xbf, 0xbd]"
  by (simp add: is_high_surrogate_def is_low_surrogate_def utf8_bytes_def)

lemma utf8_pair: "utf8_encode [0xD83D, 0xDE00] = [0xf0, 0x9f, 0x98, 0x80]"
  by (simp add: is_high_surrogate_def is_low_surrogate_def utf8_bytes_def)

text \<open>
  Claim C9. The claim says that no chunk boundary of an indefinite-length text string
  splits a surrogate pair. On the string of the one code point U+1F600 (the pair
  \<open>D83D DE00\<close>) with chunk size 1 the code does otherwise: \<open>slice\<close> cuts between the two
  halves, each chunk is a lone surrogate, which the UTF-8 encoder replaces by U+FFFD, and
  the output is \<open>7f 63 ef bf bd 63 ef bf bd ff\<close>. The string itself is \<open>f0 9f 98 80\<close> in
  UTF-8.
\<close>

theorem encodeIndefinite_splits_pair:
  "map_option (map_sum id (\<lambda>g. concatBuffers (stream g)))
     (encodeIndefinite Encoder_default (JString [0xD83D, 0xDE00]) 1)
   = Some (Inr [0x7f, 0x63, 0xef, 0xbf, 0xbd, 0x63, 0xef, 0xbf, 0xbd, 0xff])
   \<and> utf8_encode [0xD83D, 0xDE00] = [0xf0, 0x9f, 0x98, 0x80]"
proof -
  have s0: "slice [0xD83D, 0xDE00 :: 16 word] 0 (0 + 1) = [0xD83D]"
    by (simp add: slice_def)
  have s1: "slice [0xD83D, 0xDE00 :: 16 word] (0 + 1) (0 + 1 + 1) = [0xDE00]"
    by (simp add: slice_def)
  have c: "string_chunks g [0xD83D, 0xDE00] 0 1
           = Some (pushString (pushString g [0xD83D]) [0xDE00])" for g
    apply (subst string_chunks.simps)
    apply (simp only: s0)
    apply (subst string_chunks.simps)
    apply (simp only: s1)
    apply (subst string_chunks.simps)
    apply simp
    done
  have l3: "length [0xef, 0xbf, 0xbd :: byte] = 3" by simp
  have wh: "write_head 3 3 = [0x63]" by (simp add: write_head_def)
  have p1: "concatBuffers (stream (pushString g [0xD83D]))
            = concatBuffers (stream g) @ [0x63, 0xef, 0xbf, 0xbd]" for g
    using out_pushString [of "[0xD83D]" g] unfolding utf8_lone_high l3 wh by simp
  have p2: "concatBuffers (stream (pushString g [0xDE00]))
            = concatBuffers (stream g) @ [0x63, 0xef, 0xbf, 0xbd]" for g
    using out_pushString [of "[0xDE00]" g] unfolding utf8_lone_low l3 wh by simp
  have h: "num_or (num_shl (num MT_UTF8_STRING) (num 5)) (num NUMBYTES_INDEFINITE) = num 0x7f"
    by (simp add: head_byte_num)
  have "map_option (map_sum id (\<lambda>g. concatBuffers (stream g)))
     (encodeIndefinite Encoder_default (JString [0xD83D, 0xDE00]) 1)
   = Some (Inr [0x7f, 0x63, 0xef, 0xbf, 0xbd, 0x63, 0xef, 0xbf, 0xbd, 0xff])"
    unfolding encodeIndefinite.simps c h
    by (simp add: p1 p2 out_pushUInt8_num BREAK_def)
      (simp add: Encoder_default_def concatBuffers_def)
  then show ?thesis using utf8_pair by simp
qed

section \<open>The loop detector\<close>

text \<open>
  Claim C6. The claim says that the identity of every container is removed from the
  detector set when the encoder leaves it, so that none is left after a successful
  encoding. The code does otherwise for every object that is not a plain object:
  \<open>_pushObject\<close> returns through the converter and never reaches its
  \<open>detectLoops.delete\<close>. After the empty array 1 is encoded the set holds 1; an array
  that holds the same empty array twice, which has no loop, is refused with the loop
  error; the empty plain object 1 is removed as the claim says.
\<close>

theorem detectLoops_kept_after_array:
  "map_sum id (\<lambda>(b, g). (b, detectLoops g))
     (encodeOne (JArray 1 []) (default_options\<lparr>opt_detectLoops := Some {}\<rparr>))
   = Inr ([0x80], Some {1})
   \<and> encodeOne (JArray 2 [JArray 1 [], JArray 1 []]) (default_options\<lparr>opt_detectLoops := Some {}\<rparr>)
     = Inl loop_error
   \<and> map_sum id (\<lambda>(b, g). (b, detectLoops g))
     (encodeOne (JObject 1 []) (default_options\<lparr>opt_detectLoops := Some {}\<rparr>))
   = Inr ([0xa0], Some {})"
proof -
  have h: "\<And>g mt. mt \<le> 7 \<Longrightarrow> pushInt g (num 0) mt None = g\<lparr>stream := stream g @ [[of_nat (push_bit 5 mt)]]\<rparr>"
    by (simp add: pushInt_def head_byte_num [of _ 0, simplified] pushUInt8_def push_def
        uint8_bytes_def Let_def byte_of_nat_mod)
  have a: "map_sum id (\<lambda>(b, g). (b, detectLoops g))
     (encodeOne (JArray 1 []) (default_options\<lparr>opt_detectLoops := Some {}\<rparr>))
   = Inr ([0x80], Some {1})"
    by (simp add: encodeOne_def new_Encoder_def default_options_def encodeAll_def enter_object_def
        map_head_def h flush_def concatBuffers_def)
  have b: "encodeOne (JArray 2 [JArray 1 [], JArray 1 []]) (default_options\<lparr>opt_detectLoops := Some {}\<rparr>)
     = Inl loop_error"
    by (simp add: encodeOne_def new_Encoder_def default_options_def encodeAll_def enter_object_def
        map_head_def pushInt_def Let_def pushUInt8_def push_def)
  have c: "map_sum id (\<lambda>(b, g). (b, detectLoops g))
     (encodeOne (JObject 1 []) (default_options\<lparr>opt_detectLoops := Some {}\<rparr>))
   = Inr ([0xa0], Some {})"
    by (simp add: encodeOne_def new_Encoder_def default_options_def encodeAll_def enter_object_def
        leave_object_def map_head_def h flush_def concatBuffers_def)
  from a b c show ?thesis by simp
qed

section \<open>The decoder\<close>

















section \<open>Decoding what the encoder wrote\<close>











primrec depth :: "jsval \<Rightarrow> nat" where
  "depth (JNumber x) = 1"
| "depth (JBigInt k) = 2"
| "depth (JString s) = 1"
| "depth (JBoolean b) = 1"
| "depth JUndefined = 1"
| "depth JNull = 1"
| "depth (JSymbol s) = 1"
| "depth (JFunction i) = 1"
| "depth (JUint8Array i bs) = 1"
| "depth (JArray i xs) = Suc (foldr max (map depth xs) 0)"
| "depth (JMap i es) = Suc (foldr max (map (\<lambda>p. max (fst p) (snd p)) (map (map_prod depth depth) es)) 0)"
| "depth (JSet i xs) = 1"
| "depth (JObject i ps) = 1"
| "depth (JBigNumber i x) = 1"
| "depth (JSimple i n) = 1"
| "depth (JTagged i t v e) = 1"


definition emits :: "encoder \<Rightarrow> encoder \<Rightarrow> buffer \<Rightarrow> bool" where
  "emits g g' bs = (g'\<lparr>stream := []\<rparr> = g\<lparr>stream := []\<rparr>
     \<and> concatBuffers (stream g') = concatBuffers (stream g) @ bs)"






lemma length_big_endian [simp]: "length (big_endian w n) = w"
  by (simp add: big_endian_def)


































lemma emits_options:
  assumes "emits g g' bs"
  shows "omitUndefinedProperties g' = omitUndefinedProperties g"
    and "disallowUndefinedKeys g' = disallowUndefinedKeys g"
proof -
  from assms have e: "g'\<lparr>stream := []\<rparr> = g\<lparr>stream := []\<rparr>" by (simp add: emits_def)
  have "omitUndefinedProperties g' = omitUndefinedProperties (g'\<lparr>stream := []\<rparr>)" by simp
  also have "\<dots> = omitUndefinedProperties (g\<lparr>stream := []\<rparr>)" by (simp only: e)
  finally show "omitUndefinedProperties g' = omitUndefinedProperties g" by simp
  have "disallowUndefinedKeys g' = disallowUndefinedKeys (g'\<lparr>stream := []\<rparr>)" by simp
  also have "\<dots> = disallowUndefinedKeys (g\<lparr>stream := []\<rparr>)" by (simp only: e)
  finally show "disallowUndefinedKeys g' = disallowUndefinedKeys g" by simp
qed

lemma options_push: "(push g b)\<lparr>stream := []\<rparr> = g\<lparr>stream := []\<rparr>"
  by (simp add: push_def)




lemma emits_push: "emits g (push g b) b"
  by (simp add: emits_def options_push)





































lemma depth_positive: "0 < depth v"
  by (cases v) simp_all



lemma write_head_not_Nil: "write_head mt n \<noteq> []"
  by (simp add: write_head_def)








end
